theory Spec2Isabelle
  imports Main "HOL-Library.Word"
begin

section \<open>Errors, files and pipes\<close>

text \<open>
  The pipe transport of the launcher package (\<^verbatim>\<open>lib/launcher/launcher_pipe.go\<close> and its two
  platform files) talks to the operating system through \<^verbatim>\<open>os.File\<close>, \<^verbatim>\<open>os.Pipe\<close>,
  \<^verbatim>\<open>bufio.Reader\<close> and \<^verbatim>\<open>exec.Cmd\<close>. The model keeps an explicit world: a table of file
  objects, the byte queues of the pipes behind them, and the answers the operating system
  gives to the calls that can fail.
\<close>

type_synonym byte = "8 word"

datatype error =
    EOF                   \<comment> \<open>\<^verbatim>\<open>io.EOF\<close>\<close>
  | ErrClosed             \<comment> \<open>\<^verbatim>\<open>os.ErrClosed\<close>: the file was closed by this process\<close>
  | ErrAlreadyLaunched    \<comment> \<open>the launcher package's \<^verbatim>\<open>ErrAlreadyLaunched\<close>\<close>
  | Errno nat             \<comment> \<open>an error number reported by a system call\<close>
  | EWINDOWS              \<comment> \<open>\<^verbatim>\<open>syscall.EWINDOWS\<close>: not supported by Windows\<close>
  | Wrapped string error  \<comment> \<open>\<^verbatim>\<open>fmt.Errorf("<message>: %w", err)\<close>\<close>

text \<open>A \<^verbatim>\<open>*os.File\<close> is a reference into the file table; its number is its descriptor.\<close>

type_synonym File = nat

record os_file =
  closed    :: bool            \<comment> \<open>\<^verbatim>\<open>Close\<close> has been called on this file object\<close>
  pipe      :: nat             \<comment> \<open>the pipe this file is one end of\<close>
  io_err    :: "error option"  \<comment> \<open>what a read or write system call on it reports, if it fails\<close>
  close_err :: "error option"  \<comment> \<open>what the close system call on it reports, if it fails\<close>

record os_pipe =
  queue  :: "byte list"  \<comment> \<open>bytes written and not yet read\<close>
  hangup :: bool         \<comment> \<open>every write end is closed: a drained pipe reads as end of file\<close>

text \<open>The command to start, \<^verbatim>\<open>exec.Cmd\<close>, with the fields the launcher touches.\<close>

record SysProcAttr =
  AdditionalInheritedHandles :: "nat list"

record Cmd =
  Path        :: string
  Args        :: "string list"
  ExtraFiles  :: "File list"
  SysProcAttr :: "SysProcAttr option"

record world =
  files        :: "File \<Rightarrow> os_file"
  pipes        :: "nat \<Rightarrow> os_pipe"
  next_file    :: nat                      \<comment> \<open>the next free descriptor number\<close>
  pipe_errs    :: "error option list"      \<comment> \<open>the outcomes of the coming \<^verbatim>\<open>os.Pipe\<close> calls\<close>
  inheritable  :: "nat set"                \<comment> \<open>handles marked \<^verbatim>\<open>HANDLE_FLAG_INHERIT\<close>\<close>
  inherit_err  :: "nat \<Rightarrow> error option"     \<comment> \<open>the outcome of \<^verbatim>\<open>SetHandleInformation\<close> per handle\<close>
  start_err    :: "error option"           \<comment> \<open>the outcome of the coming \<^verbatim>\<open>cmd.Start\<close>\<close>
  next_pid     :: nat
  procs        :: "(nat \<times> Cmd) list"        \<comment> \<open>the processes started, oldest first\<close>

definition set_queue :: "world \<Rightarrow> nat \<Rightarrow> byte list \<Rightarrow> world" where
  "set_queue w p q = w\<lparr>pipes := (pipes w)(p := (pipes w p)\<lparr>queue := q\<rparr>)\<rparr>"

text \<open>
  \<^verbatim>\<open>(*os.File).Read\<close> into a destination of \<open>n\<close> bytes. A closed file and a failing descriptor
  report their error at once; otherwise the call returns what the pipe holds, at most \<open>n\<close>
  bytes, and end of file once the pipe is drained and hung up. On a drained pipe whose
  writer is still there the call blocks; nothing else runs in this model, so it never
  returns, which is the value \<open>None\<close>.
\<close>

definition file_Read :: "world \<Rightarrow> File \<Rightarrow> nat \<Rightarrow> (world \<times> byte list \<times> error option) option" where
  "file_Read w f n =
     (let st = files w f; p = pipes w (pipe st) in
      if closed st then Some (w, [], Some ErrClosed)
      else case io_err st of
        Some e \<Rightarrow> Some (w, [], Some e)
      | None \<Rightarrow>
          if queue p \<noteq> [] then
            Some (set_queue w (pipe st) (drop n (queue p)), take n (queue p), None)
          else if hangup p then Some (w, [], Some EOF)
          else None)"

text \<open>
  \<^verbatim>\<open>(*os.File).Write\<close>: all of the data is appended to the pipe, or the call fails. (The
  callers below drop the byte count, and a pipe that is full is not modelled.)
\<close>

definition file_Write :: "world \<Rightarrow> File \<Rightarrow> byte list \<Rightarrow> world \<times> error option" where
  "file_Write w f bs =
     (let st = files w f; p = pipes w (pipe st) in
      if closed st then (w, Some ErrClosed)
      else case io_err st of
        Some e \<Rightarrow> (w, Some e)
      | None \<Rightarrow> (set_queue w (pipe st) (queue p @ bs), None))"

text \<open>
  \<^verbatim>\<open>(*os.File).Close\<close>: a second close reports \<^verbatim>\<open>os.ErrClosed\<close>; a first close marks the
  file closed whatever the system call answers, and returns that answer.
\<close>

definition file_Close :: "world \<Rightarrow> File \<Rightarrow> world \<times> error option" where
  "file_Close w f =
     (let st = files w f in
      if closed st then (w, Some ErrClosed)
      else (w\<lparr>files := (files w)(f := st\<lparr>closed := True\<rparr>)\<rparr>, close_err st))"

section \<open>The buffered reader\<close>

text \<open>
  \<^verbatim>\<open>bufio.Reader\<close>: \<open>buf\<close> is the unread part of its buffer (\<^verbatim>\<open>b.buf[b.r:b.w]\<close>), \<open>lasterr\<close>
  its field \<^verbatim>\<open>err\<close>: the error of the last underlying read, kept until a caller is handed it.
\<close>

record Reader =
  rd  :: File
  buf :: "byte list"
  lasterr :: "error option"

definition defaultBufSize :: nat where
  "defaultBufSize = 4096"

definition NewReader :: "File \<Rightarrow> Reader" where
  "NewReader f = \<lparr>rd = f, buf = [], lasterr = None\<rparr>"

text \<open>
  \<^verbatim>\<open>(*bufio.Reader).ReadBytes(delim)\<close>, that is \<^verbatim>\<open>collectFragments\<close> around \<^verbatim>\<open>ReadSlice\<close>, as one
  loop. Each round searches the buffer for the delimiter; hands out a pending error
  together with everything buffered; moves a full buffer to the fragments collected so far
  (\<open>acc\<close>); or fills the free part of the buffer with one underlying read. An
  \<^verbatim>\<open>os.File\<close> never returns zero bytes without an error, so the retries of \<^verbatim>\<open>fill\<close> do
  not show.
\<close>

function ReadBytes_loop ::
  "world \<Rightarrow> Reader \<Rightarrow> byte \<Rightarrow> byte list \<Rightarrow> (world \<times> Reader \<times> byte list \<times> error option) option" where
  "ReadBytes_loop w b delim acc =
     (if delim \<in> set (buf b) then
        Some (w, b\<lparr>buf := tl (dropWhile (\<lambda>x. x \<noteq> delim) (buf b))\<rparr>,
              acc @ takeWhile (\<lambda>x. x \<noteq> delim) (buf b) @ [delim], None)
      else case lasterr b of
        Some e \<Rightarrow> Some (w, b\<lparr>buf := [], lasterr := None\<rparr>, acc @ buf b, Some e)
      | None \<Rightarrow>
          if defaultBufSize \<le> length (buf b) then
            ReadBytes_loop w (b\<lparr>buf := []\<rparr>) delim (acc @ buf b)
          else case file_Read w (rd b) (defaultBufSize - length (buf b)) of
            None \<Rightarrow> None
          | Some (w', bs, e) \<Rightarrow> ReadBytes_loop w' (b\<lparr>buf := buf b @ bs, lasterr := e\<rparr>) delim acc)"
  by pat_completeness auto
termination
proof (relation "measures [\<lambda>(w, b, delim, acc). length (queue (pipes w (pipe (files w (rd b))))),
                           \<lambda>(w, b, delim, acc). (if lasterr b = None then 1 else 0),
                           \<lambda>(w, b, delim, acc). length (buf b)]", goal_cases)
  case 1
  show ?case by simp
next
  case (2 w b delim acc)
  then show ?case by (cases "buf b") (simp_all add: defaultBufSize_def)
next
  case (3 w b delim acc x2 w' y bs e)
  then show ?case
    by (cases "queue (pipes w (pipe (files w (rd b))))")
       (auto simp: file_Read_def set_queue_def Let_def defaultBufSize_def
             split: if_splits option.splits)
qed

declare ReadBytes_loop.simps [simp del]

definition ReadBytes ::
  "world \<Rightarrow> Reader \<Rightarrow> byte \<Rightarrow> (world \<times> Reader \<times> byte list \<times> error option) option" where
  "ReadBytes w b delim = ReadBytes_loop w b delim []"

section \<open>PipeWebSocket\<close>

text \<open>
  \<^verbatim>\<open>type PipeWebSocket struct { in, out *os.File; reader *bufio.Reader }\<close>. The field
  \<^verbatim>\<open>in\<close> is called \<open>inp\<close> here. The reader is shared mutable state in Go; here every
  operation that moves it returns the transport with the new reader.
\<close>

record PipeWebSocket =
  inp    :: File
  out    :: File
  reader :: Reader

definition NewPipeWebSocket :: "File \<Rightarrow> File \<Rightarrow> PipeWebSocket" where
  "NewPipeWebSocket fin fout = \<lparr>inp = fin, out = fout, reader = NewReader fin\<rparr>"

text \<open>\<^verbatim>\<open>Close\<close>: both files are closed, first \<^verbatim>\<open>in\<close>, then \<^verbatim>\<open>out\<close>.\<close>

definition Close :: "PipeWebSocket \<Rightarrow> world \<Rightarrow> world \<times> error option" where
  "Close p w =
     (let (w1, err1) = file_Close w (inp p);
          (w2, err2) = file_Close w1 (out p)
      in case err1 of
           Some e \<Rightarrow> (w2, Some e)
         | None \<Rightarrow> (w2, err2))"

text \<open>\<^verbatim>\<open>Send\<close>: one write of the data followed by a zero byte; a failed write closes.\<close>

definition Send :: "PipeWebSocket \<Rightarrow> byte list \<Rightarrow> world \<Rightarrow> world \<times> error option" where
  "Send p data w =
     (let (w1, err) = file_Write w (out p) (data @ [0])
      in case err of
           Some e \<Rightarrow> (fst (Close p w1), Some e)
         | None \<Rightarrow> (w1, None))"

text \<open>
  \<^verbatim>\<open>Read\<close> returns Go's pair \<^verbatim>\<open>([]byte, error)\<close>: the slice is \<open>None\<close> for \<^verbatim>\<open>nil\<close>, the error
  is \<open>None\<close> for \<^verbatim>\<open>nil\<close>. The whole result is \<open>None\<close> when the underlying read blocks for
  ever.
\<close>

definition Read ::
  "PipeWebSocket \<Rightarrow> world \<Rightarrow> (world \<times> PipeWebSocket \<times> byte list option \<times> error option) option" where
  "Read p w =
     (case ReadBytes w (reader p) 0 of
        None \<Rightarrow> None
      | Some (w1, b, data, err) \<Rightarrow>
          (let p1 = p\<lparr>reader := b\<rparr> in
           case err of
             Some e \<Rightarrow> Some (fst (Close p1 w1), p1, None, Some e)
           | None \<Rightarrow>
               Some (w1, p1,
                     Some (if length data > 0 then take (length data - 1) data else data),
                     None)))"

text \<open>
  The error an input or output call on a file reports at once, before any byte moves:
  used to state what the transport does on a broken end.
\<close>

definition file_fault :: "world \<Rightarrow> File \<Rightarrow> error option" where
  "file_fault w f = (if closed (files w f) then Some ErrClosed else io_err (files w f))"

subsection \<open>Sequences of calls\<close>

text \<open>
  A caller of the transport issues calls one after the other; \<open>run\<close> gives the state they
  leave (\<open>None\<close> when a \<^verbatim>\<open>Read\<close> among them blocks for ever).
\<close>

datatype call = CallSend "byte list" | CallRead | CallClose

fun run :: "call list \<Rightarrow> world \<times> PipeWebSocket \<Rightarrow> (world \<times> PipeWebSocket) option" where
  "run [] s = Some s"
| "run (CallSend data # cs) (w, p) = run cs (fst (Send p data w), p)"
| "run (CallRead # cs) (w, p) =
     (case Read p w of
        None \<Rightarrow> None
      | Some (w1, p1, data, e) \<Rightarrow> run cs (w1, p1))"
| "run (CallClose # cs) (w, p) = run cs (fst (Close p w), p)"

text \<open>
  \<open>exchange a b w xs\<close>: for each payload of \<open>xs\<close> in turn, \<^verbatim>\<open>Send\<close> on \<open>a\<close>, then \<^verbatim>\<open>Read\<close> on the
  peer \<open>b\<close>. Each round is recorded as the error of the \<^verbatim>\<open>Send\<close> and the pair the
  \<^verbatim>\<open>Read\<close> returned.
\<close>

fun exchange ::
  "PipeWebSocket \<Rightarrow> PipeWebSocket \<Rightarrow> world \<Rightarrow> byte list list \<Rightarrow>
   (world \<times> PipeWebSocket \<times> (error option \<times> byte list option \<times> error option) list) option" where
  "exchange a b w [] = Some (w, b, [])"
| "exchange a b w (x # xs) =
     (case Read b (fst (Send a x w)) of
        None \<Rightarrow> None
      | Some (w1, b1, data, e) \<Rightarrow>
          (case exchange a b1 w1 xs of
             None \<Rightarrow> None
           | Some (w2, b2, rs) \<Rightarrow> Some (w2, b2, (snd (Send a x w), data, e) # rs)))"

text \<open>
  The same in two batches: \<open>send_all\<close> sends every payload of a list and collects the
  errors, \<open>read_n\<close> calls \<^verbatim>\<open>Read\<close> a number of times and collects the pairs returned.
\<close>

fun send_all :: "PipeWebSocket \<Rightarrow> world \<Rightarrow> byte list list \<Rightarrow> world \<times> error option list" where
  "send_all a w [] = (w, [])"
| "send_all a w (x # xs) =
     (fst (send_all a (fst (Send a x w)) xs),
      snd (Send a x w) # snd (send_all a (fst (Send a x w)) xs))"

fun read_n ::
  "nat \<Rightarrow> PipeWebSocket \<Rightarrow> world \<Rightarrow>
   (world \<times> PipeWebSocket \<times> (byte list option \<times> error option) list) option" where
  "read_n 0 b w = Some (w, b, [])"
| "read_n (Suc n) b w =
     (case Read b w of
        None \<Rightarrow> None
      | Some (w1, b1, data, e) \<Rightarrow>
          (case read_n n b1 w1 of
             None \<Rightarrow> None
           | Some (w2, b2, rs) \<Rightarrow> Some (w2, b2, (data, e) # rs)))"

section \<open>The launcher\<close>

text \<open>
  The launcher's flags are Go's \<^verbatim>\<open>map[flags.Flag][]string\<close>. The names of the four flags the
  pipe code touches are constants of the package \<^verbatim>\<open>flags\<close>.
\<close>

type_synonym Flag = string

definition RemoteDebuggingPort :: Flag where
  "RemoteDebuggingPort = ''remote-debugging-port''"

definition Leakless :: Flag where
  "Leakless = ''leakless''"

definition RemoteDebuggingPipe :: Flag where
  "RemoteDebuggingPipe = ''remote-debugging-pipe''"

definition RemoteDebuggingIoPipes :: Flag where
  "RemoteDebuggingIoPipes = ''remote-debugging-io-pipes''"

record Launcher =
  Flags         :: "Flag \<rightharpoonup> string list"
  isLaunched    :: bool   \<comment> \<open>the launched state that \<^verbatim>\<open>hasLaunched\<close> tests\<close>
  parser_done   :: bool   \<comment> \<open>\<^verbatim>\<open>l.parser.done\<close>\<close>
  pid           :: nat    \<comment> \<open>\<^verbatim>\<open>l.pid\<close>\<close>
  ctx_cancelled :: bool   \<comment> \<open>\<^verbatim>\<open>l.ctxCancel\<close> has been called\<close>

text \<open>
  Modelled from the spec: \<^verbatim>\<open>Set\<close> and \<^verbatim>\<open>Delete\<close> are methods of the flag configuration in
  \<^verbatim>\<open>launcher.go\<close>, which is not among these sources. The spec has the pipe core "enable" and
  "disable" flags through them: \<^verbatim>\<open>Set\<close> stores the values under the name, \<^verbatim>\<open>Delete\<close> removes
  the name.
\<close>

definition Set :: "Launcher \<Rightarrow> Flag \<Rightarrow> string list \<Rightarrow> Launcher" where
  "Set l name values = l\<lparr>Flags := (Flags l)(name \<mapsto> values)\<rparr>"

definition Delete :: "Launcher \<Rightarrow> Flag \<Rightarrow> Launcher" where
  "Delete l name = l\<lparr>Flags := (Flags l)(name := None)\<rparr>"

text \<open>
  \<^verbatim>\<open>NewPipeMode\<close>. Its first step \<^verbatim>\<open>New()\<close> is not among these sources: the launcher it returns
  is the parameter \<open>new\<close>.
\<close>

definition NewPipeMode :: "Launcher \<Rightarrow> Launcher" where
  "NewPipeMode new =
     (let l = new;
          l = Delete l RemoteDebuggingPort;
          l = Delete l Leakless;
          l = Set l RemoteDebuggingPipe [];
          l = l\<lparr>parser_done := True\<rparr>
      in l)"

text \<open>
  Modelled from the spec: \<^verbatim>\<open>hasLaunched\<close> is not among these sources. The spec describes the
  launched state as a machine with the states unlaunched and launched and one irreversible
  transition, "queried before allowing a second launch"; \<^verbatim>\<open>LaunchPipe\<close> writes the state nowhere
  else, so the query itself makes the transition: it reports the old state and leaves the
  launcher launched.
\<close>

definition hasLaunched :: "Launcher \<Rightarrow> bool \<times> Launcher" where
  "hasLaunched l = (isLaunched l, l\<lparr>isLaunched := True\<rparr>)"

text \<open>
  Modelled from the spec: \<^verbatim>\<open>setupUserPreferences\<close> is not among these sources; the spec calls it
  "pre-launch preparation required by the configuration (credential/profile setup) -
  delegated, not part of this core". It writes a file and changes nothing this model holds.
\<close>

definition setupUserPreferences :: "Launcher \<Rightarrow> Launcher" where
  "setupUserPreferences l = l"

text \<open>
  Modelled from the spec: \<^verbatim>\<open>setupCmd\<close> is not among these sources; the spec calls it the
  "apply default process setup" hook "for any cross-cutting process attributes (working
  directory, environment) unrelated to pipes". None of the fields of \<open>Cmd\<close> kept here is
  among them.
\<close>

definition setupCmd :: "Launcher \<Rightarrow> Cmd \<Rightarrow> Cmd" where
  "setupCmd l cmd = cmd"

text \<open>
  What \<^verbatim>\<open>LaunchPipe\<close> takes from collaborators that are not among these sources: the build
  target, the result of \<^verbatim>\<open>l.getBin()\<close>, and the formatter \<^verbatim>\<open>l.FormatArgs()\<close> as a function of
  the flags.
\<close>

datatype platform = Unix | Windows

record env =
  target     :: platform
  getBin     :: "error + string"
  FormatArgs :: "(Flag \<rightharpoonup> string list) \<Rightarrow> string list"

text \<open>The client of the debugging protocol, started on the transport (\<^verbatim>\<open>cdp.New()...Start\<close>).\<close>

datatype Client = Client PipeWebSocket

subsection \<open>Operating system calls of the launcher\<close>

text \<open>
  \<^verbatim>\<open>os.Pipe()\<close>: the next outcome of \<open>pipe_errs\<close> decides; with none left the call succeeds.
  A new pipe gets the two next descriptor numbers, read end first.
\<close>

definition new_end :: "nat \<Rightarrow> os_file" where
  "new_end p = \<lparr>closed = False, pipe = p, io_err = None, close_err = None\<rparr>"

definition os_Pipe :: "world \<Rightarrow> world \<times> (error + File \<times> File)" where
  "os_Pipe w =
     (case pipe_errs w of
        Some e # rest \<Rightarrow> (w\<lparr>pipe_errs := rest\<rparr>, Inl e)
      | _ \<Rightarrow>
          (let r = next_file w
           in (w\<lparr>files := (files w)(r := new_end r, Suc r := new_end r),
                  pipes := (pipes w)(r := \<lparr>queue = [], hangup = False\<rparr>),
                  next_file := r + 2,
                  pipe_errs := tl (pipe_errs w)\<rparr>,
               Inr (r, Suc r))))"

text \<open>\<^verbatim>\<open>f.Close()\<close> with its error dropped, as \<^verbatim>\<open>LaunchPipe\<close> calls it.\<close>

definition close_file :: "world \<Rightarrow> File \<Rightarrow> world" where
  "close_file w f = fst (file_Close w f)"

text \<open>\<^verbatim>\<open>exec.Command(name, arg...)\<close>: the argument vector starts with the name.\<close>

definition Command :: "string \<Rightarrow> string list \<Rightarrow> Cmd" where
  "Command name arg = \<lparr>Path = name, Args = name # arg, ExtraFiles = [], SysProcAttr = None\<rparr>"

text \<open>
  \<^verbatim>\<open>cmd.Start()\<close>. On Windows Go starts no process that has \<^verbatim>\<open>ExtraFiles\<close>
  (\<^verbatim>\<open>syscall.EWINDOWS\<close>); otherwise \<open>start_err\<close> decides, and a started process is recorded
  with the command it was started from.
\<close>

definition cmd_Start :: "platform \<Rightarrow> world \<Rightarrow> Cmd \<Rightarrow> world \<times> (error + nat)" where
  "cmd_Start t w cmd =
     (if t = Windows \<and> ExtraFiles cmd \<noteq> [] then (w, Inl EWINDOWS)
      else case start_err w of
        Some e \<Rightarrow> (w, Inl e)
      | None \<Rightarrow>
          (w\<lparr>procs := procs w @ [(next_pid w, cmd)], next_pid := Suc (next_pid w)\<rparr>,
           Inr (next_pid w)))"

subsection \<open>The platform files\<close>

text \<open>
  \<^verbatim>\<open>(*os.File).Fd()\<close>, the handle behind a file: its number, and the invalid handle once the
  file is closed.
\<close>

definition InvalidHandle :: nat where
  "InvalidHandle = 2 ^ 64 - 1"

definition Fd :: "world \<Rightarrow> File \<Rightarrow> nat" where
  "Fd w f = (if closed (files w f) then InvalidHandle else f)"

text \<open>\<^verbatim>\<open>fmt.Sprintf("%d", n)\<close> for a handle.\<close>

function decimal :: "nat \<Rightarrow> string" where
  "decimal n =
     (if n < 10 then [''0123456789'' ! n]
      else decimal (n div 10) @ [''0123456789'' ! (n mod 10)])"
  by pat_completeness auto
termination
  by (relation "measure id") auto

declare decimal.simps [simp del]

text \<open>\<^verbatim>\<open>setHandleInheritable\<close>: \<^verbatim>\<open>syscall.SetHandleInformation\<close> with \<^verbatim>\<open>HANDLE_FLAG_INHERIT\<close>.\<close>

definition setHandleInheritable :: "world \<Rightarrow> nat \<Rightarrow> world \<times> error option" where
  "setHandleInheritable w handle =
     (case inherit_err w handle of
        Some e \<Rightarrow> (w, Some e)
      | None \<Rightarrow> (w\<lparr>inheritable := insert handle (inheritable w)\<rparr>, None))"

text \<open>
  \<^verbatim>\<open>preparePipeConfig\<close> of the Windows file (\<^verbatim>\<open>src/unnamed/part_000\<close>, build tag \<^verbatim>\<open>windows\<close>). The
  closure it returns is a function on commands.
\<close>

definition preparePipeConfig_windows ::
  "Launcher \<Rightarrow> File \<Rightarrow> File \<Rightarrow> world \<Rightarrow> (error + (Cmd \<Rightarrow> Cmd)) \<times> Launcher \<times> world" where
  "preparePipeConfig_windows l readPipe writePipe w =
     (let readHandle = Fd w readPipe;
          writeHandle = Fd w writePipe;
          (w1, err1) = setHandleInheritable w readHandle
      in case err1 of
           Some e \<Rightarrow> (Inl (Wrapped ''failed to make read handle inheritable'' e), l, w1)
         | None \<Rightarrow>
             (let (w2, err2) = setHandleInheritable w1 writeHandle
              in case err2 of
                   Some e \<Rightarrow> (Inl (Wrapped ''failed to make write handle inheritable'' e), l, w2)
                 | None \<Rightarrow>
                     (Inr (\<lambda>cmd.
                        (let attr = (case SysProcAttr cmd of
                                       None \<Rightarrow> \<lparr>AdditionalInheritedHandles = []\<rparr>
                                     | Some a \<Rightarrow> a)
                         in cmd\<lparr>SysProcAttr :=
                                  Some (attr\<lparr>AdditionalInheritedHandles :=
                                               [readHandle, writeHandle]\<rparr>)\<rparr>)),
                      Set l RemoteDebuggingIoPipes
                        [decimal readHandle @ '','' @ decimal writeHandle],
                      w2)))"

text \<open>\<^verbatim>\<open>preparePipeConfig\<close> of \<^verbatim>\<open>launcher_pipe_unix.go\<close> (build tag \<^verbatim>\<open>!windows\<close>).\<close>

definition preparePipeConfig_unix ::
  "Launcher \<Rightarrow> File \<Rightarrow> File \<Rightarrow> world \<Rightarrow> (error + (Cmd \<Rightarrow> Cmd)) \<times> Launcher \<times> world" where
  "preparePipeConfig_unix l readPipe writePipe w =
     (Inr (\<lambda>cmd. cmd\<lparr>ExtraFiles := [readPipe, writePipe]\<rparr>), l, w)"

text \<open>The build tag picks one of the two.\<close>

definition preparePipeConfig ::
  "platform \<Rightarrow> Launcher \<Rightarrow> File \<Rightarrow> File \<Rightarrow> world \<Rightarrow>
   (error + (Cmd \<Rightarrow> Cmd)) \<times> Launcher \<times> world" where
  "preparePipeConfig t =
     (case t of Unix \<Rightarrow> preparePipeConfig_unix | Windows \<Rightarrow> preparePipeConfig_windows)"

subsection \<open>LaunchPipe\<close>

text \<open>
  The sources hold \<^verbatim>\<open>LaunchPipe\<close> twice. The one in \<^verbatim>\<open>src/unnamed/part_000\<close> calls the platform
  file's \<^verbatim>\<open>preparePipeConfig\<close> and is \<open>LaunchPipe\<close> below. The one in
  \<^verbatim>\<open>src/lib/launcher/launcher_pipe.go\<close> formats the arguments first and sets \<^verbatim>\<open>cmd.ExtraFiles\<close>
  itself; it is \<open>LaunchPipe_inline\<close>. In both, \<open>launch\<close> is the body after the
  \<^verbatim>\<open>hasLaunched\<close> test, and the deferred \<^verbatim>\<open>l.ctxCancel()\<close> runs on every way out of that body.
  The goroutine that waits for the process and closes \<^verbatim>\<open>l.exit\<close> is not part of the model.
\<close>

definition launch :: "env \<Rightarrow> Launcher \<Rightarrow> world \<Rightarrow> (error + Client) \<times> Launcher \<times> world" where
  "launch E l w =
     (case getBin E of
        Inl err \<Rightarrow> (Inl err, l, w)
      | Inr bin \<Rightarrow>
          (let l = setupUserPreferences l;
               (w, pair1) = os_Pipe w
           in case pair1 of
                Inl err \<Rightarrow> (Inl (Wrapped ''failed to create write pipe'' err), l, w)
              | Inr (chromeReadPipe, ourWritePipe) \<Rightarrow>
                  (let (w, pair2) = os_Pipe w
                   in case pair2 of
                        Inl err \<Rightarrow>
                          (let w = close_file w chromeReadPipe;
                               w = close_file w ourWritePipe
                           in (Inl (Wrapped ''failed to create read pipe'' err), l, w))
                      | Inr (ourReadPipe, chromeWritePipe) \<Rightarrow>
                          (let (cfg, l, w) =
                                 preparePipeConfig (target E) l chromeReadPipe chromeWritePipe w
                           in case cfg of
                                Inl err \<Rightarrow>
                                  (let w = close_file w chromeReadPipe;
                                       w = close_file w ourWritePipe;
                                       w = close_file w ourReadPipe;
                                       w = close_file w chromeWritePipe
                                   in (Inl err, l, w))
                              | Inr configureCmd \<Rightarrow>
                                  (let args = FormatArgs E (Flags l);
                                       cmd = Command bin args;
                                       cmd = setupCmd l cmd;
                                       cmd = configureCmd cmd;
                                       (w, started) = cmd_Start (target E) w cmd
                                   in case started of
                                        Inl err \<Rightarrow>
                                          (let w = close_file w chromeReadPipe;
                                               w = close_file w ourWritePipe;
                                               w = close_file w ourReadPipe;
                                               w = close_file w chromeWritePipe
                                           in (Inl err, l, w))
                                      | Inr child \<Rightarrow>
                                          (let w = close_file w chromeReadPipe;
                                               w = close_file w chromeWritePipe;
                                               l = l\<lparr>pid := child\<rparr>;
                                               pipeWS = NewPipeWebSocket ourReadPipe ourWritePipe
                                           in (Inr (Client pipeWS), l, w)))))))"

definition LaunchPipe :: "env \<Rightarrow> Launcher \<Rightarrow> world \<Rightarrow> (error + Client) \<times> Launcher \<times> world" where
  "LaunchPipe E l w =
     (let (launched, l) = hasLaunched l
      in if launched then (Inl ErrAlreadyLaunched, l, w)
         else (let (res, l, w) = launch E l w
               in (res, l\<lparr>ctx_cancelled := True\<rparr>, w)))"

definition launch_inline ::
  "env \<Rightarrow> Launcher \<Rightarrow> world \<Rightarrow> (error + Client) \<times> Launcher \<times> world" where
  "launch_inline E l w =
     (case getBin E of
        Inl err \<Rightarrow> (Inl err, l, w)
      | Inr bin \<Rightarrow>
          (let l = setupUserPreferences l;
               args = FormatArgs E (Flags l);
               cmd = Command bin args;
               (w, pair1) = os_Pipe w
           in case pair1 of
                Inl err \<Rightarrow> (Inl (Wrapped ''failed to create write pipe'' err), l, w)
              | Inr (chromeReadPipe, ourWritePipe) \<Rightarrow>
                  (let (w, pair2) = os_Pipe w
                   in case pair2 of
                        Inl err \<Rightarrow>
                          (let w = close_file w chromeReadPipe;
                               w = close_file w ourWritePipe
                           in (Inl (Wrapped ''failed to create read pipe'' err), l, w))
                      | Inr (ourReadPipe, chromeWritePipe) \<Rightarrow>
                          (let cmd = cmd\<lparr>ExtraFiles := [chromeReadPipe, chromeWritePipe]\<rparr>;
                               cmd = setupCmd l cmd;
                               (w, started) = cmd_Start (target E) w cmd
                           in case started of
                                Inl err \<Rightarrow>
                                  (let w = close_file w chromeReadPipe;
                                       w = close_file w ourWritePipe;
                                       w = close_file w ourReadPipe;
                                       w = close_file w chromeWritePipe
                                   in (Inl err, l, w))
                              | Inr child \<Rightarrow>
                                  (let w = close_file w chromeReadPipe;
                                       w = close_file w chromeWritePipe;
                                       l = l\<lparr>pid := child\<rparr>;
                                       pipeWS = NewPipeWebSocket ourReadPipe ourWritePipe
                                   in (Inr (Client pipeWS), l, w))))))"

definition LaunchPipe_inline ::
  "env \<Rightarrow> Launcher \<Rightarrow> world \<Rightarrow> (error + Client) \<times> Launcher \<times> world" where
  "LaunchPipe_inline E l w =
     (let (launched, l) = hasLaunched l
      in if launched then (Inl ErrAlreadyLaunched, l, w)
         else (let (res, l, w) = launch_inline E l w
               in (res, l\<lparr>ctx_cancelled := True\<rparr>, w)))"

section \<open>Example states\<close>

text \<open>
  Concrete inputs on which the theorems below are run: a world whose files are all open
  and healthy and whose pipes are empty; a formatter that prints the four flags of the
  pipe code; a launcher as \<^verbatim>\<open>New()\<close> could return it, with a debugging port and the leakless
  helper switched on.
\<close>

definition ex_world :: world where
  "ex_world =
     \<lparr>files = (\<lambda>f. \<lparr>closed = False, pipe = f, io_err = None, close_err = None\<rparr>),
      pipes = (\<lambda>p. \<lparr>queue = [], hangup = False\<rparr>),
      next_file = 10, pipe_errs = [], inheritable = {}, inherit_err = (\<lambda>h. None),
      start_err = None, next_pid = 100, procs = []\<rparr>"

definition ex_format :: "(Flag \<rightharpoonup> string list) \<Rightarrow> string list" where
  "ex_format fl =
     concat (map (\<lambda>k. case fl k of
                         None \<Rightarrow> []
                       | Some vs \<Rightarrow> [''--'' @ k @ (if vs = [] then [] else ''='' @ concat vs)])
       [RemoteDebuggingIoPipes, RemoteDebuggingPipe, RemoteDebuggingPort, Leakless])"

definition ex_new :: Launcher where
  "ex_new =
     \<lparr>Flags = [RemoteDebuggingPort \<mapsto> [''0''], Leakless \<mapsto> []],
      isLaunched = False, parser_done = False, pid = 0, ctx_cancelled = False\<rparr>"

definition ex_unix :: env where
  "ex_unix = \<lparr>target = Unix, getBin = Inr ''chrome'', FormatArgs = ex_format\<rparr>"

definition ex_windows :: env where
  "ex_windows = \<lparr>target = Windows, getBin = Inr ''chrome'', FormatArgs = ex_format\<rparr>"

text \<open>
  A transport on the files 3 (in) and 4 (out). The child has written the two frames
  \<open>[1]\<close> and \<open>[2]\<close> and has then closed its end of the outbound pipe, so that a write
  fails with \<^verbatim>\<open>EPIPE\<close> (32). \<open>sticky_w1\<close>, \<open>sticky_p1\<close> are the state after a first
  \<^verbatim>\<open>Read\<close>, \<open>sticky_w2\<close> the world after a \<^verbatim>\<open>Send\<close> that then fails.
\<close>

definition sticky_w0 :: world where
  "sticky_w0 =
     ex_world\<lparr>files := (files ex_world)
                  (4 := \<lparr>closed = False, pipe = 4, io_err = Some (Errno 32), close_err = None\<rparr>),
              pipes := (pipes ex_world)(3 := \<lparr>queue = [1, 0, 2, 0], hangup = False\<rparr>)\<rparr>"

definition sticky_p0 :: PipeWebSocket where
  "sticky_p0 = NewPipeWebSocket 3 4"

definition sticky_w1 :: world where
  "sticky_w1 = fst (the (Read sticky_p0 sticky_w0))"

definition sticky_p1 :: PipeWebSocket where
  "sticky_p1 = fst (snd (the (Read sticky_p0 sticky_w0)))"

definition sticky_w2 :: world where
  "sticky_w2 = fst (Send sticky_p1 [5] sticky_w1)"

section \<open>The reader's loop\<close>

lemma first_delim_split:
  assumes "xs @ ys = fr @ d # rest" "d \<notin> set fr" "d \<in> set xs"
  shows "takeWhile (\<lambda>x. x \<noteq> d) xs = fr \<and> tl (dropWhile (\<lambda>x. x \<noteq> d) xs) @ ys = rest"
proof -
  from assms(3) obtain a c where xs: "xs = a @ d # c" and a: "d \<notin> set a"
    by (meson split_list_first)
  have "takeWhile (\<lambda>x. x \<noteq> d) (xs @ ys) = a" "dropWhile (\<lambda>x. x \<noteq> d) (xs @ ys) = d # c @ ys"
    using a by (simp_all add: xs takeWhile_append dropWhile_append)
  moreover have "takeWhile (\<lambda>x. x \<noteq> d) (fr @ d # rest) = fr"
    "dropWhile (\<lambda>x. x \<noteq> d) (fr @ d # rest) = d # rest"
    using assms(2) by (simp_all add: takeWhile_append dropWhile_append)
  ultimately have "a = fr" "c @ ys = rest" using assms(1) by simp_all
  moreover have "takeWhile (\<lambda>x. x \<noteq> d) xs = a" "dropWhile (\<lambda>x. x \<noteq> d) xs = d # c"
    using a by (simp_all add: xs takeWhile_append dropWhile_append)
  ultimately show ?thesis by simp
qed

lemma no_delim_prefix:
  assumes "xs @ ys = fr @ d # rest" "d \<notin> set fr" "d \<notin> set xs"
  shows "\<exists>fr'. fr = xs @ fr' \<and> ys = fr' @ d # rest"
proof -
  from assms(1) consider us where "xs = fr @ us" "us @ ys = d # rest"
    | us where "xs @ us = fr" "ys = us @ d # rest"
    by (auto simp: append_eq_append_conv2)
  then show ?thesis
  proof cases
    case 1
    show ?thesis
    proof (cases us)
      case Nil
      with 1 show ?thesis by simp
    next
      case (Cons u us')
      with 1 assms(3) show ?thesis by simp
    qed
  next
    case 2
    then show ?thesis by auto
  qed
qed

lemma set_queue_simps [simp]:
  "files (set_queue w p q) = files w"
  "pipes (set_queue w p q) p = (pipes w p)\<lparr>queue := q\<rparr>"
  "p' \<noteq> p \<Longrightarrow> pipes (set_queue w p q) p' = pipes w p'"
  "set_queue (set_queue w p q) p q' = set_queue w p q'"
  "set_queue w p (queue (pipes w p)) = w"
  by (simp_all add: set_queue_def)

lemma ReadBytes_loop_frame:
  assumes "\<not> closed (files w (rd b))" "io_err (files w (rd b)) = None" "lasterr b = None"
      "buf b @ queue (pipes w (pipe (files w (rd b)))) = fr @ delim # rest" "delim \<notin> set fr"
  shows "\<exists>bb q. ReadBytes_loop w b delim acc =
           Some (set_queue w (pipe (files w (rd b))) q, b\<lparr>buf := bb\<rparr>, acc @ fr @ [delim], None)
           \<and> bb @ q = rest"
  using assms
proof (induction w b delim acc arbitrary: fr rule: ReadBytes_loop.induct)
  case (1 w b delim acc)
  let ?P = "pipe (files w (rd b))"
  let ?q = "queue (pipes w ?P)"
  show ?case
  proof (cases "delim \<in> set (buf b)")
    case True
    from first_delim_split[OF "1.prems"(4) "1.prems"(5) True]
    have tw: "takeWhile (\<lambda>x. x \<noteq> delim) (buf b) = fr"
      and dw: "tl (dropWhile (\<lambda>x. x \<noteq> delim) (buf b)) @ ?q = rest" by simp_all
    have "ReadBytes_loop w b delim acc =
        Some (set_queue w ?P ?q, b\<lparr>buf := tl (dropWhile (\<lambda>x. x \<noteq> delim) (buf b))\<rparr>,
              acc @ fr @ [delim], None)"
      using True tw by (subst ReadBytes_loop.simps) simp
    then show ?thesis using dw by blast
  next
    case False
    from no_delim_prefix[OF "1.prems"(4) "1.prems"(5) False]
    obtain fr' where fr: "fr = buf b @ fr'" and q: "?q = fr' @ delim # rest" by blast
    show ?thesis
    proof (cases "defaultBufSize \<le> length (buf b)")
      case True
      have d: "delim \<notin> set fr'" using "1.prems"(5) fr by simp
      have "\<exists>bb q'. ReadBytes_loop w (b\<lparr>buf := []\<rparr>) delim (acc @ buf b) =
           Some (set_queue w ?P q', b\<lparr>buf := bb\<rparr>, acc @ fr @ [delim], None) \<and> bb @ q' = rest"
        using "1.IH"(1)[OF False "1.prems"(3) True, of fr'] "1.prems"(1,2,3) q d fr by simp
      moreover have "ReadBytes_loop w b delim acc = ReadBytes_loop w (b\<lparr>buf := []\<rparr>) delim (acc @ buf b)"
        using False True "1.prems"(3) by (subst ReadBytes_loop.simps) simp
      ultimately show ?thesis by simp
    next
      case nf: False
      let ?n = "defaultBufSize - length (buf b)"
      let ?w' = "set_queue w ?P (drop ?n ?q)"
      let ?b' = "b\<lparr>buf := buf b @ take ?n ?q, lasterr := None\<rparr>"
      have qne: "?q \<noteq> []" using q by simp
      have fR: "file_Read w (rd b) ?n = Some (?w', take ?n ?q, None)"
        using "1.prems"(1,2) qne by (simp add: file_Read_def Let_def)
      have step: "ReadBytes_loop w b delim acc = ReadBytes_loop ?w' ?b' delim acc"
        using False nf "1.prems"(3) fR by (subst ReadBytes_loop.simps) simp
      have beq: "\<And>bb. ?b'\<lparr>buf := bb\<rparr> = b\<lparr>buf := bb\<rparr>" using "1.prems"(3) by simp
      have "\<exists>bb q'. ReadBytes_loop ?w' ?b' delim acc =
           Some (set_queue w ?P q', b\<lparr>buf := bb\<rparr>, acc @ fr @ [delim], None) \<and> bb @ q' = rest"
        using "1.IH"(2)[OF False "1.prems"(3) nf fR refl refl, of fr] "1.prems" beq by simp
      then show ?thesis unfolding step .
    qed
  qed
qed


lemma set_queue_fields [simp]:
  "next_file (set_queue w p q) = next_file w"
  "pipe_errs (set_queue w p q) = pipe_errs w"
  "inheritable (set_queue w p q) = inheritable w"
  "inherit_err (set_queue w p q) = inherit_err w"
  "start_err (set_queue w p q) = start_err w"
  "procs (set_queue w p q) = procs w"
  by (simp_all add: set_queue_def)

lemma ReadBytes_loop_buffered:
  assumes "delim \<in> set (buf b)"
  shows "ReadBytes_loop w b delim acc =
           Some (w, b\<lparr>buf := tl (dropWhile (\<lambda>x. x \<noteq> delim) (buf b))\<rparr>,
                 acc @ takeWhile (\<lambda>x. x \<noteq> delim) (buf b) @ [delim], None)"
  using assms by (subst ReadBytes_loop.simps) simp

lemma ReadBytes_loop_pending:
  assumes "delim \<notin> set (buf b)" "lasterr b = Some e"
  shows "ReadBytes_loop w b delim acc =
           Some (w, b\<lparr>buf := [], lasterr := None\<rparr>, acc @ buf b, Some e)"
  using assms by (subst ReadBytes_loop.simps) simp

lemma file_Read_fault:
  assumes "file_fault w f = Some e"
  shows "file_Read w f n = Some (w, [], Some e)"
  using assms by (auto simp: file_Read_def file_fault_def Let_def split: if_splits)

lemma ReadBytes_loop_fault_short:
  assumes "delim \<notin> set (buf b)" "lasterr b = None" "file_fault w (rd b) = Some e"
    "\<not> defaultBufSize \<le> length (buf b)"
  shows "ReadBytes_loop w b delim acc = Some (w, b\<lparr>buf := []\<rparr>, acc @ buf b, Some e)"
proof -
  have "ReadBytes_loop w b delim acc = ReadBytes_loop w (b\<lparr>lasterr := Some e\<rparr>) delim acc"
    using assms by (subst ReadBytes_loop.simps) (simp add: file_Read_fault)
  also have "\<dots> = Some (w, b\<lparr>lasterr := Some e, buf := [], lasterr := None\<rparr>, acc @ buf b, Some e)"
    using assms(1) by (simp add: ReadBytes_loop_pending)
  also have "b\<lparr>lasterr := Some e, buf := [], lasterr := None\<rparr> = b\<lparr>buf := []\<rparr>"
    using assms(2) by simp
  finally show ?thesis .
qed

lemma ReadBytes_loop_fault:
  assumes "delim \<notin> set (buf b)" "lasterr b = None" "file_fault w (rd b) = Some e"
  shows "ReadBytes_loop w b delim acc = Some (w, b\<lparr>buf := []\<rparr>, acc @ buf b, Some e)"
proof (cases "defaultBufSize \<le> length (buf b)")
  case False
  with assms show ?thesis by (rule ReadBytes_loop_fault_short)
next
  case True
  have "ReadBytes_loop w b delim acc = ReadBytes_loop w (b\<lparr>buf := []\<rparr>) delim (acc @ buf b)"
    using assms True by (subst ReadBytes_loop.simps) simp
  also have "\<dots> = Some (w, b\<lparr>buf := [], buf := []\<rparr>, (acc @ buf b) @ [], Some e)"
    using assms by (subst ReadBytes_loop_fault_short[where e = e]) (simp_all add: defaultBufSize_def)
  finally show ?thesis by simp
qed

lemma ReadBytes_loop_eof:
  assumes "file_fault w (rd b) = None" "lasterr b = None"
    "hangup (pipes w (pipe (files w (rd b))))"
    "delim \<notin> set (buf b)" "delim \<notin> set (queue (pipes w (pipe (files w (rd b)))))"
  shows "ReadBytes_loop w b delim acc =
           Some (set_queue w (pipe (files w (rd b))) [], b\<lparr>buf := []\<rparr>,
                 acc @ buf b @ queue (pipes w (pipe (files w (rd b)))), Some EOF)"
  using assms
proof (induction w b delim acc rule: ReadBytes_loop.induct)
  case (1 w b delim acc)
  let ?P = "pipe (files w (rd b))"
  let ?q = "queue (pipes w ?P)"
  have op: "\<not> closed (files w (rd b))" "io_err (files w (rd b)) = None"
    using "1.prems"(1) by (auto simp: file_fault_def split: if_splits)
  show ?case
  proof (cases "defaultBufSize \<le> length (buf b)")
    case True
    have "ReadBytes_loop w b delim acc = ReadBytes_loop w (b\<lparr>buf := []\<rparr>) delim (acc @ buf b)"
      using "1.prems" True by (subst ReadBytes_loop.simps) simp
    also have "\<dots> = Some (set_queue w ?P [], b\<lparr>buf := []\<rparr>, acc @ buf b @ ?q, Some EOF)"
      using "1.IH"(1)[OF "1.prems"(4) "1.prems"(2) True] "1.prems" by simp
    finally show ?thesis .
  next
    case nf: False
    let ?n = "defaultBufSize - length (buf b)"
    show ?thesis
    proof (cases "?q = []")
      case True
      have fR: "file_Read w (rd b) ?n = Some (w, [], Some EOF)"
        using op True "1.prems"(3) by (simp add: file_Read_def Let_def)
      have "ReadBytes_loop w b delim acc = ReadBytes_loop w (b\<lparr>lasterr := Some EOF\<rparr>) delim acc"
        using "1.prems" nf fR by (subst ReadBytes_loop.simps) simp
      also have "\<dots> = Some (w, b\<lparr>lasterr := Some EOF, buf := [], lasterr := None\<rparr>, acc @ buf b, Some EOF)"
        using "1.prems"(4) by (simp add: ReadBytes_loop_pending)
      also have "b\<lparr>lasterr := Some EOF, buf := [], lasterr := None\<rparr> = b\<lparr>buf := []\<rparr>"
        using "1.prems"(2) by simp
      finally have res: "ReadBytes_loop w b delim acc = Some (w, b\<lparr>buf := []\<rparr>, acc @ buf b, Some EOF)" .
      have "set_queue w ?P [] = w" using True by (metis set_queue_simps(5))
      then show ?thesis using True res by simp
    next
      case False
      let ?w' = "set_queue w ?P (drop ?n ?q)"
      let ?b' = "b\<lparr>buf := buf b @ take ?n ?q, lasterr := None\<rparr>"
      have fR: "file_Read w (rd b) ?n = Some (?w', take ?n ?q, None)"
        using op False by (simp add: file_Read_def Let_def)
      have step: "ReadBytes_loop w b delim acc = ReadBytes_loop ?w' ?b' delim acc"
        using "1.prems" nf fR by (subst ReadBytes_loop.simps) simp
      have d1: "delim \<notin> set (take ?n ?q)" "delim \<notin> set (drop ?n ?q)"
        using "1.prems"(5) by (auto dest: in_set_takeD in_set_dropD)
      have ff: "file_fault ?w' (rd ?b') = None"
        using op by (simp add: file_fault_def)
      have "ReadBytes_loop ?w' ?b' delim acc =
          Some (set_queue w ?P [], b\<lparr>buf := []\<rparr>, acc @ (buf b @ take ?n ?q) @ drop ?n ?q, Some EOF)"
        using "1.IH"(2)[OF "1.prems"(4) "1.prems"(2) nf fR refl refl] ff "1.prems"(2,3,4) d1
        by simp
      then show ?thesis unfolding step by simp
    qed
  qed
qed

section \<open>Close, Send and Read\<close>

lemma file_Close_closed [simp]: "closed (files (fst (file_Close w f)) f)"
  by (simp add: file_Close_def Let_def)

lemma file_Close_mono: "closed (files w g) \<Longrightarrow> closed (files (fst (file_Close w f)) g)"
  by (simp add: file_Close_def Let_def)

lemma file_Close_pipes [simp]: "pipes (fst (file_Close w f)) = pipes w"
  by (simp add: file_Close_def Let_def)

lemma file_Close_again: "closed (files w f) \<Longrightarrow> file_Close w f = (w, Some ErrClosed)"
  by (simp add: file_Close_def Let_def)

lemma Close_fst: "fst (Close p w) = fst (file_Close (fst (file_Close w (inp p))) (out p))"
  by (simp add: Close_def split: prod.splits option.splits)

lemma Close_snd:
  "snd (Close p w) =
     (case snd (file_Close w (inp p)) of
        Some e \<Rightarrow> Some e
      | None \<Rightarrow> snd (file_Close (fst (file_Close w (inp p))) (out p)))"
  by (simp add: Close_def split: prod.splits option.splits)

lemma Close_closes: "closed (files (fst (Close p w)) (inp p))" "closed (files (fst (Close p w)) (out p))"
  by (simp_all add: Close_fst file_Close_mono)

lemma Close_mono: "closed (files w g) \<Longrightarrow> closed (files (fst (Close p w)) g)"
  by (simp add: Close_fst file_Close_mono)

lemma Close_pipes [simp]: "pipes (fst (Close p w)) = pipes w"
  by (simp add: Close_fst)

lemma Close_again:
  "closed (files w (inp p)) \<Longrightarrow> closed (files w (out p)) \<Longrightarrow> Close p w = (w, Some ErrClosed)"
  by (simp add: Close_def file_Close_again)

text \<open>
  Claim C4. \<^verbatim>\<open>Close\<close> closes both files whatever the first close answers: afterwards the
  inbound and the outbound file are closed, the world is the one left by closing \<^verbatim>\<open>in\<close> and
  then \<^verbatim>\<open>out\<close>, and the error returned is the error of closing \<^verbatim>\<open>in\<close> if there is one,
  otherwise whatever closing \<^verbatim>\<open>out\<close> answered (an error or none).
\<close>

theorem Close_closes_both_first_error:
  "closed (files (fst (Close p w)) (inp p)) \<and>
   closed (files (fst (Close p w)) (out p)) \<and>
   fst (Close p w) = fst (file_Close (fst (file_Close w (inp p))) (out p)) \<and>
   snd (Close p w) =
     (case snd (file_Close w (inp p)) of
        Some e \<Rightarrow> Some e
      | None \<Rightarrow> snd (file_Close (fst (file_Close w (inp p))) (out p)))"
  using Close_closes Close_fst Close_snd by simp

lemma file_Write_fault: "file_fault w f = Some e \<Longrightarrow> file_Write w f bs = (w, Some e)"
  by (auto simp: file_Write_def file_fault_def Let_def split: if_splits)

lemma file_Write_ok:
  "file_fault w f = None \<Longrightarrow>
   file_Write w f bs =
     (set_queue w (pipe (files w f)) (queue (pipes w (pipe (files w f))) @ bs), None)"
  by (auto simp: file_Write_def file_fault_def Let_def split: if_splits)

lemma file_fault_cases: "file_fault w f = None \<or> (\<exists>e. file_fault w f = Some e)"
  by (cases "file_fault w f") simp_all

lemma Send_ok:
  "file_fault w (out p) = None \<Longrightarrow>
   Send p data w =
     (set_queue w (pipe (files w (out p))) (queue (pipes w (pipe (files w (out p)))) @ data @ [0]),
      None)"
  by (simp add: Send_def file_Write_ok)

lemma Send_fault: "file_fault w (out p) = Some e \<Longrightarrow> Send p data w = (fst (Close p w), Some e)"
  by (simp add: Send_def file_Write_fault)

lemma Send_error_closed:
  assumes "Send p data w = (w', Some e)"
  shows "closed (files w' (inp p)) \<and> closed (files w' (out p))"
proof (cases "file_fault w (out p)")
  case None
  with assms show ?thesis by (simp add: Send_ok)
next
  case (Some e')
  with assms have "w' = fst (Close p w)" by (simp add: Send_fault)
  then show ?thesis by (simp add: Close_closes)
qed

lemma Send_closed:
  assumes "closed (files w (inp p))" "closed (files w (out p))"
  shows "Send p data w = (w, Some ErrClosed)"
proof -
  have "file_fault w (out p) = Some ErrClosed" using assms by (simp add: file_fault_def)
  then show ?thesis using assms by (simp add: Send_fault Close_again)
qed

lemma Read_error_closed:
  assumes "Read p w = Some (w', p', data, Some e)"
  shows "data = None \<and> closed (files w' (inp p)) \<and> closed (files w' (out p))
         \<and> inp p' = inp p \<and> out p' = out p"
  using assms
  by (auto simp: Read_def Let_def Close_fst file_Close_mono split: option.splits prod.splits)

lemma Read_buffered:
  assumes "0 \<in> set (buf (reader p))"
  shows "Read p w =
      Some (w, p\<lparr>reader := (reader p)\<lparr>buf := tl (dropWhile (\<lambda>x. x \<noteq> 0) (buf (reader p)))\<rparr>\<rparr>,
            Some (takeWhile (\<lambda>x. x \<noteq> 0) (buf (reader p))), None)"
  using assms by (simp add: Read_def Let_def ReadBytes_def ReadBytes_loop_buffered)

lemma Read_closed:
  assumes "rd (reader p) = inp p" "closed (files w (inp p))" "closed (files w (out p))"
    "0 \<notin> set (buf (reader p))"
  shows "\<exists>e. Read p w = Some (w, p\<lparr>reader := (reader p)\<lparr>buf := [], lasterr := None\<rparr>\<rparr>, None, Some e)"
proof (cases "lasterr (reader p)")
  case None
  have "file_fault w (rd (reader p)) = Some ErrClosed" using assms by (simp add: file_fault_def)
  from ReadBytes_loop_fault[OF assms(4) None this, of "[]"]
  have "ReadBytes w (reader p) 0 = Some (w, (reader p)\<lparr>buf := []\<rparr>, buf (reader p), Some ErrClosed)"
    by (simp add: ReadBytes_def)
  moreover have "(reader p)\<lparr>buf := []\<rparr> = (reader p)\<lparr>buf := [], lasterr := None\<rparr>"
    using None by simp
  ultimately show ?thesis using assms by (simp add: Read_def Let_def Close_again)
next
  case (Some e)
  from ReadBytes_loop_pending[OF assms(4) Some, of w "[]"]
  show ?thesis using assms by (simp add: Read_def Let_def ReadBytes_def Close_again)
qed

lemma file_fault_set_queue [simp]: "file_fault (set_queue w p q) f = file_fault w f"
  by (simp add: file_fault_def)

lemma Read_frame:
  assumes "file_fault w (rd (reader p)) = None" "lasterr (reader p) = None"
    "buf (reader p) @ queue (pipes w (pipe (files w (rd (reader p))))) = fr @ 0 # rest"
    "0 \<notin> set fr"
  shows "\<exists>bb q. Read p w =
           Some (set_queue w (pipe (files w (rd (reader p)))) q,
                 p\<lparr>reader := (reader p)\<lparr>buf := bb\<rparr>\<rparr>, Some fr, None) \<and> bb @ q = rest"
proof -
  have op: "\<not> closed (files w (rd (reader p)))" "io_err (files w (rd (reader p))) = None"
    using assms(1) by (auto simp: file_fault_def split: if_splits)
  from ReadBytes_loop_frame[OF op assms(2) assms(3) assms(4), of "[]"]
  obtain bb q where
    "ReadBytes_loop w (reader p) 0 [] =
       Some (set_queue w (pipe (files w (rd (reader p)))) q, (reader p)\<lparr>buf := bb\<rparr>, fr @ [0], None)"
    "bb @ q = rest" by auto
  then have "Read p w =
           Some (set_queue w (pipe (files w (rd (reader p)))) q,
                 p\<lparr>reader := (reader p)\<lparr>buf := bb\<rparr>\<rparr>, Some fr, None) \<and> bb @ q = rest"
    by (simp add: Read_def ReadBytes_def Let_def)
  then show ?thesis by blast
qed

text \<open>
  Claim C10. When the next byte of the inbound stream is the delimiter (it heads the
  buffer, or the buffer is empty and it heads the pipe of a healthy file), \<^verbatim>\<open>Read\<close> returns
  the empty, non-nil byte sequence and no error.
\<close>

theorem Read_empty_frame:
  assumes "(\<exists>bb. buf (reader p) = 0 # bb) \<or>
           (buf (reader p) = [] \<and> lasterr (reader p) = None \<and>
            file_fault w (rd (reader p)) = None \<and>
            (\<exists>q. queue (pipes w (pipe (files w (rd (reader p))))) = 0 # q))"
  shows "\<exists>w' p'. Read p w = Some (w', p', Some [], None)"
  using assms
proof
  assume "\<exists>bb. buf (reader p) = 0 # bb"
  then obtain bb where "buf (reader p) = 0 # bb" by blast
  then show ?thesis by (simp add: Read_buffered)
next
  assume a: "buf (reader p) = [] \<and> lasterr (reader p) = None \<and>
            file_fault w (rd (reader p)) = None \<and>
            (\<exists>q. queue (pipes w (pipe (files w (rd (reader p))))) = 0 # q)"
  then obtain q where "buf (reader p) @ queue (pipes w (pipe (files w (rd (reader p))))) = [] @ 0 # q"
    by auto
  from Read_frame[OF _ _ this] a show ?thesis by auto
qed

theorem Read_empty_frame_witness:
  "buf (reader (NewPipeWebSocket 3 4)) = [] \<and>
   queue (pipes (set_queue ex_world 3 [0, 7, 0]) 3) = [0, 7, 0] \<and>
   (\<exists>w' p'. Read (NewPipeWebSocket 3 4) (set_queue ex_world 3 [0, 7, 0]) = Some (w', p', Some [], None))"
proof -
  have "\<exists>w' p'. Read (NewPipeWebSocket 3 4) (set_queue ex_world 3 [0, 7, 0]) = Some (w', p', Some [], None)"
    by (rule Read_empty_frame)
       (simp add: NewPipeWebSocket_def NewReader_def file_fault_def ex_world_def)
  then show ?thesis by (simp add: NewPipeWebSocket_def NewReader_def)
qed

text \<open>
  Claim C3. A \<^verbatim>\<open>Read\<close> with no delimiter in the buffer whose underlying read fails (the file is
  closed or broken), or whose stream ends (the pipe is hung up and holds no delimiter),
  returns that error and no data, has closed both files when it returns, and leaves
  nothing in the buffer: the bytes read so far are dropped. No \<^verbatim>\<open>Read\<close> at all returns data
  together with an error.
\<close>

theorem Read_failure_closes_and_discards:
  assumes "rd (reader p) = inp p" "lasterr (reader p) = None" "0 \<notin> set (buf (reader p))"
    and "file_fault w (inp p) = Some e \<or>
         (file_fault w (inp p) = None \<and> e = EOF \<and>
          hangup (pipes w (pipe (files w (inp p)))) \<and>
          0 \<notin> set (queue (pipes w (pipe (files w (inp p))))))"
  shows "(\<exists>w' p'. Read p w = Some (w', p', None, Some e) \<and>
           closed (files w' (inp p)) \<and> closed (files w' (out p)) \<and> buf (reader p') = []) \<and>
         (\<forall>p0 w0 w1 p1 data e1. Read p0 w0 = Some (w1, p1, data, Some e1) \<longrightarrow> data = None)"
proof (rule conjI)
  show "\<forall>p0 w0 w1 p1 data e1. Read p0 w0 = Some (w1, p1, data, Some e1) \<longrightarrow> data = None"
    using Read_error_closed by blast
next
  let ?goal = "\<exists>w' p'. Read p w = Some (w', p', None, Some e) \<and>
           closed (files w' (inp p)) \<and> closed (files w' (out p)) \<and> buf (reader p') = []"
  from assms(4) show ?goal
proof
  assume f: "file_fault w (inp p) = Some e"
  from ReadBytes_loop_fault[OF assms(3) assms(2), of w e "[]"] f assms(1)
  have "ReadBytes w (reader p) 0 = Some (w, (reader p)\<lparr>buf := []\<rparr>, buf (reader p), Some e)"
    by (simp add: ReadBytes_def)
  then have "Read p w = Some (fst (Close (p\<lparr>reader := (reader p)\<lparr>buf := []\<rparr>\<rparr>) w),
                 p\<lparr>reader := (reader p)\<lparr>buf := []\<rparr>\<rparr>, None, Some e)"
    by (simp add: Read_def Let_def)
  then show ?goal by (simp add: Close_fst file_Close_mono)
next
  let ?P = "pipe (files w (inp p))"
  assume "file_fault w (inp p) = None \<and> e = EOF \<and> hangup (pipes w ?P) \<and> 0 \<notin> set (queue (pipes w ?P))"
  then have a: "file_fault w (rd (reader p)) = None" "e = EOF"
     "hangup (pipes w (pipe (files w (rd (reader p)))))"
     "0 \<notin> set (queue (pipes w (pipe (files w (rd (reader p))))))"
    using assms(1) by simp_all
  from ReadBytes_loop_eof[OF a(1) assms(2) a(3) assms(3) a(4), of "[]"] assms(1)
  have "ReadBytes w (reader p) 0 =
      Some (set_queue w ?P [], (reader p)\<lparr>buf := []\<rparr>, buf (reader p) @ queue (pipes w ?P), Some EOF)"
    by (simp add: ReadBytes_def)
  then have "Read p w = Some (fst (Close (p\<lparr>reader := (reader p)\<lparr>buf := []\<rparr>\<rparr>) (set_queue w ?P [])),
                 p\<lparr>reader := (reader p)\<lparr>buf := []\<rparr>\<rparr>, None, Some e)"
    using a(2) by (simp add: Read_def Let_def)
  then show ?goal by (simp add: Close_fst file_Close_mono)
qed
qed

theorem Read_failure_closes_and_discards_witness:
  "0 \<notin> set (queue (pipes (ex_world\<lparr>pipes := (pipes ex_world)(3 := \<lparr>queue = [1, 2], hangup = True\<rparr>)\<rparr>) 3)) \<and>
   (\<exists>w' p'. Read (NewPipeWebSocket 3 4)
              (ex_world\<lparr>pipes := (pipes ex_world)(3 := \<lparr>queue = [1, 2], hangup = True\<rparr>)\<rparr>) =
            Some (w', p', None, Some EOF) \<and>
            closed (files w' 3) \<and> closed (files w' 4) \<and> buf (reader p') = [])"
  using Read_failure_closes_and_discards
      [of "NewPipeWebSocket 3 4"
          "ex_world\<lparr>pipes := (pipes ex_world)(3 := \<lparr>queue = [1, 2], hangup = True\<rparr>)\<rparr>" EOF]
  by (simp add: NewPipeWebSocket_def NewReader_def file_fault_def ex_world_def)

lemma send_read_round:
  assumes "pipe (files w (out a)) = pipe (files w (inp b))"
    "file_fault w (out a) = None" "file_fault w (inp b) = None"
    "rd (reader b) = inp b" "buf (reader b) = []" "lasterr (reader b) = None"
    "queue (pipes w (pipe (files w (inp b)))) = []" "0 \<notin> set x"
  shows "Send a x w = (set_queue w (pipe (files w (inp b))) (x @ [0]), None) \<and>
         Read b (set_queue w (pipe (files w (inp b))) (x @ [0])) = Some (w, b, Some x, None)"
proof -
  let ?P = "pipe (files w (inp b))"
  let ?w1 = "set_queue w ?P (x @ [0])"
  have s: "Send a x w = (?w1, None)"
    using Send_ok[OF assms(2), of x] assms(1,7) by simp
  have ff: "file_fault ?w1 (rd (reader b)) = None"
    using assms(3,4) by simp
  have st: "buf (reader b) @ queue (pipes ?w1 (pipe (files ?w1 (rd (reader b))))) = x @ 0 # []"
    using assms(4,5) by simp
  from Read_frame[OF ff assms(6) st assms(8)]
  obtain bb q where r: "Read b ?w1 =
      Some (set_queue ?w1 (pipe (files ?w1 (rd (reader b)))) q,
            b\<lparr>reader := (reader b)\<lparr>buf := bb\<rparr>\<rparr>, Some x, None)" and e: "bb @ q = []"
    by blast
  from e have bq: "bb = []" "q = []" by simp_all
  have w: "set_queue ?w1 (pipe (files ?w1 (rd (reader b)))) [] = w"
    using assms(4,7) by (simp, metis set_queue_simps(5))
  have b: "b\<lparr>reader := (reader b)\<lparr>buf := []\<rparr>\<rparr> = b" using assms(5) by simp
  show ?thesis using s r bq w b by simp
qed

lemma send_all_ok:
  assumes "file_fault w (out a) = None"
  shows "send_all a w xs =
           (set_queue w (pipe (files w (out a)))
              (queue (pipes w (pipe (files w (out a)))) @ concat (map (\<lambda>x. x @ [0]) xs)),
            map (\<lambda>x. None) xs)"
  using assms
proof (induction xs arbitrary: w)
  case Nil
  then show ?case by simp
next
  case (Cons x xs)
  let ?P = "pipe (files w (out a))"
  let ?w1 = "set_queue w ?P (queue (pipes w ?P) @ x @ [0])"
  have s: "Send a x w = (?w1, None)" using Cons.prems by (rule Send_ok)
  have "file_fault ?w1 (out a) = None" using Cons.prems by simp
  from Cons.IH[OF this] s show ?case by simp
qed

lemma read_n_frames:
  assumes "file_fault w (rd (reader b)) = None" "lasterr (reader b) = None"
    "buf (reader b) @ queue (pipes w (pipe (files w (rd (reader b))))) =
       concat (map (\<lambda>x. x @ [0]) xs) @ rest"
    "\<forall>x \<in> set xs. 0 \<notin> set x"
  shows "\<exists>bb q. read_n (length xs) b w =
           Some (set_queue w (pipe (files w (rd (reader b)))) q,
                 b\<lparr>reader := (reader b)\<lparr>buf := bb\<rparr>\<rparr>, map (\<lambda>x. (Some x, None)) xs) \<and>
           bb @ q = rest"
  using assms
proof (induction xs arbitrary: w b)
  case Nil
  let ?P = "pipe (files w (rd (reader b)))"
  have "read_n (length []) b w =
          Some (set_queue w ?P (queue (pipes w ?P)), b\<lparr>reader := (reader b)\<lparr>buf := buf (reader b)\<rparr>\<rparr>,
                map (\<lambda>x. (Some x, None)) [])"
    by simp
  moreover have "buf (reader b) @ queue (pipes w ?P) = rest" using Nil.prems(3) by simp
  ultimately show ?case by blast
next
  case (Cons x xs)
  let ?P = "pipe (files w (rd (reader b)))"
  have x: "0 \<notin> set x" and xs: "\<forall>x \<in> set xs. 0 \<notin> set x" using Cons.prems(4) by simp_all
  have st: "buf (reader b) @ queue (pipes w ?P) = x @ 0 # (concat (map (\<lambda>x. x @ [0]) xs) @ rest)"
    using Cons.prems(3) by simp
  from Read_frame[OF Cons.prems(1,2) st x]
  obtain bb q where r: "Read b w = Some (set_queue w ?P q, b\<lparr>reader := (reader b)\<lparr>buf := bb\<rparr>\<rparr>, Some x, None)"
    and bq: "bb @ q = concat (map (\<lambda>x. x @ [0]) xs) @ rest" by blast
  let ?w1 = "set_queue w ?P q"
  let ?b1 = "b\<lparr>reader := (reader b)\<lparr>buf := bb\<rparr>\<rparr>"
  have a1: "file_fault ?w1 (rd (reader ?b1)) = None" using Cons.prems(1) by simp
  have a2: "lasterr (reader ?b1) = None" using Cons.prems(2) by simp
  have a3: "buf (reader ?b1) @ queue (pipes ?w1 (pipe (files ?w1 (rd (reader ?b1))))) =
       concat (map (\<lambda>x. x @ [0]) xs) @ rest" using bq by simp
  from Cons.IH[OF a1 a2 a3 xs]
  obtain bb' q' where n: "read_n (length xs) ?b1 ?w1 =
           Some (set_queue ?w1 (pipe (files ?w1 (rd (reader ?b1)))) q',
                 ?b1\<lparr>reader := (reader ?b1)\<lparr>buf := bb'\<rparr>\<rparr>, map (\<lambda>x. (Some x, None)) xs)"
     and bq': "bb' @ q' = rest" by blast
  have "read_n (length (x # xs)) b w =
          Some (set_queue w ?P q', b\<lparr>reader := (reader b)\<lparr>buf := bb'\<rparr>\<rparr>,
                map (\<lambda>x. (Some x, None)) (x # xs))"
    using r n by simp
  with bq' show ?case by blast
qed

lemma batch_round_trip:
  assumes "pipe (files w (out a)) = pipe (files w (inp b))"
    "file_fault w (out a) = None" "file_fault w (inp b) = None"
    "rd (reader b) = inp b" "buf (reader b) = []" "lasterr (reader b) = None"
    "queue (pipes w (pipe (files w (inp b)))) = []"
    "\<forall>x \<in> set xs. 0 \<notin> set x"
  shows "snd (send_all a w xs) = map (\<lambda>x. None) xs \<and>
         read_n (length xs) b (fst (send_all a w xs)) = Some (w, b, map (\<lambda>x. (Some x, None)) xs)"
proof -
  let ?P = "pipe (files w (inp b))"
  let ?w1 = "set_queue w ?P (concat (map (\<lambda>x. x @ [0]) xs))"
  have s: "send_all a w xs = (?w1, map (\<lambda>x. None) xs)"
    using send_all_ok[OF assms(2), of xs] assms(1,7) by simp
  have a1: "file_fault ?w1 (rd (reader b)) = None" using assms(3,4) by simp
  have a3: "buf (reader b) @ queue (pipes ?w1 (pipe (files ?w1 (rd (reader b))))) =
       concat (map (\<lambda>x. x @ [0]) xs) @ []" using assms(4,5) by simp
  from read_n_frames[OF a1 assms(6) a3 assms(8)]
  obtain bb q where r: "read_n (length xs) b ?w1 =
           Some (set_queue ?w1 (pipe (files ?w1 (rd (reader b)))) q,
                 b\<lparr>reader := (reader b)\<lparr>buf := bb\<rparr>\<rparr>, map (\<lambda>x. (Some x, None)) xs)"
    and "bb @ q = []" by blast
  then have bq: "bb = []" "q = []" by simp_all
  have w: "set_queue ?w1 (pipe (files ?w1 (rd (reader b)))) [] = w"
    using assms(4,7) by (simp, metis set_queue_simps(5))
  have b: "b\<lparr>reader := (reader b)\<lparr>buf := []\<rparr>\<rparr> = b" using assms(5) by simp
  show ?thesis using s r bq w b by simp
qed

text \<open>
  Claim C1. Let the outbound file of \<open>a\<close> and the inbound file of \<open>b\<close> be the two healthy
  ends of one empty pipe, and let \<open>b\<close> have read nothing ahead. For payloads without a zero
  byte, sending each on \<open>a\<close> and then reading on \<open>b\<close> succeeds every time and returns the
  payloads, unchanged and in the order sent, with no delimiter and no extra byte. The same
  holds when all payloads are sent first and then read back.
\<close>

theorem send_read_round_trip:
  assumes "pipe (files w (out a)) = pipe (files w (inp b))"
    "file_fault w (out a) = None" "file_fault w (inp b) = None"
    "rd (reader b) = inp b" "buf (reader b) = []" "lasterr (reader b) = None"
    "queue (pipes w (pipe (files w (inp b)))) = []"
    "\<forall>x \<in> set xs. 0 \<notin> set x"
  shows "exchange a b w xs = Some (w, b, map (\<lambda>x. (None, Some x, None)) xs) \<and>
         snd (send_all a w xs) = map (\<lambda>x. None) xs \<and>
         read_n (length xs) b (fst (send_all a w xs)) = Some (w, b, map (\<lambda>x. (Some x, None)) xs)"
proof -
  have "exchange a b w xs = Some (w, b, map (\<lambda>x. (None, Some x, None)) xs)"
    using assms(8)
  proof (induction xs)
    case Nil
    show ?case by simp
  next
    case (Cons x xs)
    then have x: "0 \<notin> set x" and xs: "\<forall>x \<in> set xs. 0 \<notin> set x" by simp_all
    from send_read_round[OF assms(1-7) x] Cons.IH[OF xs]
    show ?case by simp
  qed
  with batch_round_trip[OF assms] show ?thesis by simp
qed

theorem send_read_round_trip_witness:
  "(0::byte) \<notin> set [0x7B, 0x7D] \<and> (0::byte) \<notin> set [1, 2, 3] \<and>
   exchange (NewPipeWebSocket 5 6) (NewPipeWebSocket 7 8)
      (ex_world\<lparr>files := (files ex_world)(6 := new_end 7)\<rparr>) [[0x7B, 0x7D], [], [1, 2, 3]] =
     Some (ex_world\<lparr>files := (files ex_world)(6 := new_end 7)\<rparr>, NewPipeWebSocket 7 8,
           [(None, Some [0x7B, 0x7D], None), (None, Some [], None), (None, Some [1, 2, 3], None)]) \<and>
   read_n 3 (NewPipeWebSocket 7 8)
      (fst (send_all (NewPipeWebSocket 5 6) (ex_world\<lparr>files := (files ex_world)(6 := new_end 7)\<rparr>)
              [[0x7B, 0x7D], [], [1, 2, 3]])) =
     Some (ex_world\<lparr>files := (files ex_world)(6 := new_end 7)\<rparr>, NewPipeWebSocket 7 8,
           [(Some [0x7B, 0x7D], None), (Some [], None), (Some [1, 2, 3], None)])"
proof -
  let ?w = "ex_world\<lparr>files := (files ex_world)(6 := new_end 7)\<rparr>"
  let ?a = "NewPipeWebSocket 5 6"
  let ?b = "NewPipeWebSocket 7 8"
  let ?xs = "[[0x7B, 0x7D], [], [1, 2, 3::byte]]"
  have h: "pipe (files ?w (out ?a)) = pipe (files ?w (inp ?b))"
    "file_fault ?w (out ?a) = None" "file_fault ?w (inp ?b) = None"
    "rd (reader ?b) = inp ?b" "buf (reader ?b) = []" "lasterr (reader ?b) = None"
    "queue (pipes ?w (pipe (files ?w (inp ?b)))) = []"
    by (simp_all add: NewPipeWebSocket_def NewReader_def file_fault_def ex_world_def new_end_def)
  have nz: "(0::byte) \<notin> set [0x7B, 0x7D]" "(0::byte) \<notin> set [1, 2, 3]" by simp_all
  then have z: "\<forall>x \<in> set ?xs. 0 \<notin> set x" by simp
  have len: "length ?xs = 3" by simp
  note t = send_read_round_trip[OF h z, unfolded list.map len]
  from t nz show ?thesis by blast
qed

section \<open>After a failure\<close>

lemma ReadBytes_loop_error_empties:
  "ReadBytes_loop w b delim acc = Some (w', b', data, Some e) \<Longrightarrow> buf b' = []"
proof (induction w b delim acc rule: ReadBytes_loop.induct)
  case (1 w b delim acc)
  show ?case
  proof (cases "delim \<in> set (buf b)")
    case True
    with "1.prems" show ?thesis by (simp add: ReadBytes_loop_buffered)
  next
    case nd: False
    show ?thesis
    proof (cases "lasterr b")
      case (Some e0)
      with nd "1.prems" show ?thesis by (auto simp add: ReadBytes_loop_pending)
    next
      case None
      show ?thesis
      proof (cases "defaultBufSize \<le> length (buf b)")
        case True
        have "ReadBytes_loop w b delim acc = ReadBytes_loop w (b\<lparr>buf := []\<rparr>) delim (acc @ buf b)"
          using nd None True by (subst ReadBytes_loop.simps) simp
        with "1.IH"(1)[OF nd None True] "1.prems" show ?thesis by simp
      next
        case nf: False
        show ?thesis
        proof (cases "file_Read w (rd b) (defaultBufSize - length (buf b))")
          case None2: None
          have "ReadBytes_loop w b delim acc = None"
            using nd None nf None2 by (subst ReadBytes_loop.simps) simp
          with "1.prems" show ?thesis by simp
        next
          case (Some r)
          obtain w1 bs e1 where r: "r = (w1, bs, e1)" by (cases r) auto
          have "ReadBytes_loop w b delim acc =
                ReadBytes_loop w1 (b\<lparr>buf := buf b @ bs, lasterr := e1\<rparr>) delim acc"
            using nd None nf Some r by (subst ReadBytes_loop.simps) simp
          with "1.IH"(2)[OF nd None nf Some[unfolded r] refl refl] "1.prems" show ?thesis by simp
        qed
      qed
    qed
  qed
qed

lemma Read_error_empties:
  assumes "Read p w = Some (w', p', data, Some e)"
  shows "buf (reader p') = []"
  using assms
  by (auto simp: Read_def Let_def ReadBytes_def split: option.splits prod.splits
           dest: ReadBytes_loop_error_empties)

lemma run_closed:
  assumes "rd (reader p) = inp p" "closed (files w (inp p))" "closed (files w (out p))"
  shows "\<exists>p'. run cs (w, p) = Some (w, p') \<and> rd (reader p') = inp p' \<and>
              inp p' = inp p \<and> out p' = out p \<and>
              (buf (reader p) = [] \<longrightarrow> buf (reader p') = [])"
  using assms
proof (induction cs arbitrary: p)
  case Nil
  then show ?case by simp
next
  case (Cons c cs)
  show ?case
  proof (cases c)
    case (CallSend data)
    from Cons.IH[OF Cons.prems] Send_closed[OF Cons.prems(2,3)]
    show ?thesis by (simp add: CallSend)
  next
    case CallClose
    from Cons.IH[OF Cons.prems] Close_again[OF Cons.prems(2,3)]
    show ?thesis by (simp add: CallClose)
  next
    case CallRead
    show ?thesis
    proof (cases "0 \<in> set (buf (reader p))")
      case True
      let ?p1 = "p\<lparr>reader := (reader p)\<lparr>buf := tl (dropWhile (\<lambda>x. x \<noteq> 0) (buf (reader p)))\<rparr>\<rparr>"
      have "\<exists>p'. run cs (w, ?p1) = Some (w, p') \<and> rd (reader p') = inp p' \<and>
              inp p' = inp ?p1 \<and> out p' = out ?p1 \<and>
              (buf (reader ?p1) = [] \<longrightarrow> buf (reader p') = [])"
        using Cons.prems by (intro Cons.IH) simp_all
      then show ?thesis using True by (auto simp: CallRead Read_buffered)
    next
      case False
      let ?p1 = "p\<lparr>reader := (reader p)\<lparr>buf := [], lasterr := None\<rparr>\<rparr>"
      from Read_closed[OF Cons.prems False]
      obtain e where r: "Read p w = Some (w, ?p1, None, Some e)" by blast
      have "\<exists>p'. run cs (w, ?p1) = Some (w, p') \<and> rd (reader p') = inp p' \<and>
              inp p' = inp ?p1 \<and> out p' = out ?p1 \<and>
              (buf (reader ?p1) = [] \<longrightarrow> buf (reader p') = [])"
        using Cons.prems by (intro Cons.IH) simp_all
      then show ?thesis using r by (auto simp: CallRead)
    qed
  qed
qed

text \<open>
  Claim C2, as the code has it. Once a \<^verbatim>\<open>Send\<close> or a \<^verbatim>\<open>Read\<close> of a transport has returned an
  error, then after any further calls of \<^verbatim>\<open>Send\<close>, \<^verbatim>\<open>Read\<close> and \<^verbatim>\<open>Close\<close> on it: every
  \<^verbatim>\<open>Send\<close> returns an error; a \<^verbatim>\<open>Read\<close> returns an error when the reader's buffer holds no
  delimiter, and otherwise returns the next frame that was buffered before the failure;
  and after a failed \<^verbatim>\<open>Read\<close> the buffer is empty, so that every later \<^verbatim>\<open>Read\<close> fails.
\<close>

theorem failure_is_sticky:
  assumes "rd (reader p) = inp p"
    and "Send p d0 w0 = (w, Some e) \<or> Read p0 w0 = Some (w, p, x, Some e)"
  shows "\<exists>p'. run cs (w, p) = Some (w, p') \<and>
           snd (Send p' d w) = Some ErrClosed \<and>
           (0 \<notin> set (buf (reader p')) \<longrightarrow>
              (\<exists>p'' e'. Read p' w = Some (w, p'', None, Some e'))) \<and>
           (0 \<in> set (buf (reader p')) \<longrightarrow>
              (\<exists>p''. Read p' w =
                 Some (w, p'', Some (takeWhile (\<lambda>b. b \<noteq> 0) (buf (reader p'))), None))) \<and>
           (Read p0 w0 = Some (w, p, x, Some e) \<longrightarrow> buf (reader p') = [])"
proof -
  have cl: "closed (files w (inp p))" "closed (files w (out p))"
    using assms(2) Send_error_closed[of p d0 w0 w e] Read_error_closed[of p0 w0 w p x e]
    by auto
  have em: "Read p0 w0 = Some (w, p, x, Some e) \<Longrightarrow> buf (reader p) = []"
    by (rule Read_error_empties)
  from run_closed[OF assms(1) cl, of cs]
  obtain p' where p': "run cs (w, p) = Some (w, p')" "rd (reader p') = inp p'"
      "inp p' = inp p" "out p' = out p" "buf (reader p) = [] \<longrightarrow> buf (reader p') = []"
    by blast
  have cl': "closed (files w (inp p'))" "closed (files w (out p'))" using cl p' by simp_all
  have "snd (Send p' d w) = Some ErrClosed" using Send_closed[OF cl'] by simp
  moreover have "0 \<notin> set (buf (reader p')) \<longrightarrow> (\<exists>p'' e'. Read p' w = Some (w, p'', None, Some e'))"
    using Read_closed[OF p'(2) cl'] by blast
  moreover have "0 \<in> set (buf (reader p')) \<longrightarrow>
              (\<exists>p''. Read p' w =
                 Some (w, p'', Some (takeWhile (\<lambda>b. b \<noteq> 0) (buf (reader p'))), None))"
    using Read_buffered[of p' w] by blast
  moreover have "Read p0 w0 = Some (w, p, x, Some e) \<longrightarrow> buf (reader p') = []"
    using em p'(5) by blast
  ultimately show ?thesis using p'(1) by blast
qed

text \<open>The example transport, step by step.\<close>

lemma sticky_read1:
  "Read sticky_p0 sticky_w0 =
     Some (set_queue sticky_w0 3 [], sticky_p0\<lparr>reader := (reader sticky_p0)\<lparr>buf := [2, 0]\<rparr>\<rparr>, Some [1], None)"
  by (simp add: Read_def ReadBytes_def ReadBytes_loop.simps file_Read_def defaultBufSize_def
       Let_def sticky_w0_def sticky_p0_def ex_world_def NewPipeWebSocket_def NewReader_def)

lemma sticky_p1_eq: "sticky_p1 = \<lparr>inp = 3, out = 4, reader = \<lparr>rd = 3, buf = [2, 0], lasterr = None\<rparr>\<rparr>"
  by (simp add: sticky_p1_def sticky_read1) (simp add: sticky_p0_def NewPipeWebSocket_def NewReader_def)

lemma sticky_w1_eq: "sticky_w1 = set_queue sticky_w0 3 []"
  by (simp add: sticky_w1_def sticky_read1)

lemma sticky_send: "Send sticky_p1 [5] sticky_w1 = (sticky_w2, Some (Errno 32))"
proof -
  have "file_fault sticky_w1 (out sticky_p1) = Some (Errno 32)"
    by (simp add: sticky_w1_eq sticky_p1_eq file_fault_def sticky_w0_def ex_world_def)
  then have "snd (Send sticky_p1 [5] sticky_w1) = Some (Errno 32)" by (simp add: Send_fault)
  then show ?thesis by (simp add: sticky_w2_def prod_eq_iff)
qed

text \<open>
  Claim C2 as stated fails: on the example transport a first \<^verbatim>\<open>Read\<close> returns the frame
  \<open>[1]\<close> and buffers the frame \<open>[2]\<close>; the \<^verbatim>\<open>Send\<close> that follows fails and closes the
  transport; the \<^verbatim>\<open>Read\<close> after that failure returns \<open>[2]\<close> and no error.
\<close>

theorem failure_not_sticky_for_Read:
  "map_option (snd \<circ> snd) (Read sticky_p0 sticky_w0) = Some (Some [1], None) \<and>
   Send sticky_p1 [5] sticky_w1 = (sticky_w2, Some (Errno 32)) \<and>
   map_option (snd \<circ> snd) (Read sticky_p1 sticky_w2) = Some (Some [2], None)"
  by (simp add: sticky_read1 sticky_send) (simp add: sticky_p1_eq Read_buffered)

theorem failure_is_sticky_witness:
  "rd (reader sticky_p1) = inp sticky_p1 \<and>
   Send sticky_p1 [5] sticky_w1 = (sticky_w2, Some (Errno 32)) \<and>
   (\<exists>p'. run [CallRead, CallSend [9], CallRead] (sticky_w2, sticky_p1) = Some (sticky_w2, p') \<and>
         snd (Send p' [9] sticky_w2) = Some ErrClosed \<and>
         (\<exists>p'' e'. Read p' sticky_w2 = Some (sticky_w2, p'', None, Some e')))"
proof -
  have wf: "rd (reader sticky_p1) = inp sticky_p1" by (simp add: sticky_p1_eq)
  from failure_is_sticky[OF wf disjI1, OF sticky_send, of "[CallRead, CallSend [9], CallRead]" "[9]"]
  obtain p' where p': "run [CallRead, CallSend [9], CallRead] (sticky_w2, sticky_p1) = Some (sticky_w2, p')"
     "snd (Send p' [9] sticky_w2) = Some ErrClosed"
     "0 \<notin> set (buf (reader p')) \<longrightarrow> (\<exists>p'' e'. Read p' sticky_w2 = Some (sticky_w2, p'', None, Some e'))"
    by blast
  let ?P1 = "\<lparr>inp = 3, out = 4, reader = \<lparr>rd = 3, buf = [], lasterr = None\<rparr>\<rparr>"
  have cl: "closed (files sticky_w2 (inp ?P1))" "closed (files sticky_w2 (out ?P1))"
    using Send_error_closed[OF sticky_send] by (simp_all add: sticky_p1_eq)
  have r1: "Read sticky_p1 sticky_w2 = Some (sticky_w2, ?P1, Some [2], None)"
    by (simp add: sticky_p1_eq Read_buffered)
  have s: "Send ?P1 [9] sticky_w2 = (sticky_w2, Some ErrClosed)"
    by (rule Send_closed[OF cl])
  from Read_closed[OF _ cl] obtain e where r2: "Read ?P1 sticky_w2 = Some (sticky_w2, ?P1, None, Some e)"
    by auto
  have "run [CallRead, CallSend [9], CallRead] (sticky_w2, sticky_p1) = Some (sticky_w2, ?P1)"
    by (simp add: r1 s r2)
  with p'(1) have "p' = ?P1" by simp
  with p' wf sticky_send show ?thesis by auto
qed

section \<open>Launching\<close>

lemma close_file_closed [simp]: "closed (files (close_file w f) f)"
  by (simp add: close_file_def)

lemma close_file_mono: "closed (files w g) \<Longrightarrow> closed (files (close_file w f) g)"
  by (simp add: close_file_def file_Close_mono)

lemma close_file_fields [simp]:
  "procs (close_file w f) = procs w"
  "inheritable (close_file w f) = inheritable w"
  "pipes (close_file w f) = pipes w"
  "next_file (close_file w f) = next_file w"
  by (simp_all add: close_file_def file_Close_def Let_def)

lemma os_Pipe_fields [simp]:
  "procs (fst (os_Pipe w)) = procs w"
  "inheritable (fst (os_Pipe w)) = inheritable w"
  by (simp_all add: os_Pipe_def Let_def split: list.splits option.splits)

lemma hasLaunched_launched:
  "isLaunched l \<Longrightarrow> hasLaunched l = (True, l)"
  by (simp add: hasLaunched_def)

lemma LaunchPipe_launched:
  "isLaunched l \<Longrightarrow> LaunchPipe E l w = (Inl ErrAlreadyLaunched, l, w)"
  "isLaunched l \<Longrightarrow> LaunchPipe_inline E l w = (Inl ErrAlreadyLaunched, l, w)"
  by (simp_all add: LaunchPipe_def LaunchPipe_inline_def hasLaunched_launched)

lemma LaunchPipe_unlaunched:
  "\<not> isLaunched l \<Longrightarrow>
   LaunchPipe E l w =
     (fst (launch E (l\<lparr>isLaunched := True\<rparr>) w),
      (fst (snd (launch E (l\<lparr>isLaunched := True\<rparr>) w)))\<lparr>ctx_cancelled := True\<rparr>,
      snd (snd (launch E (l\<lparr>isLaunched := True\<rparr>) w)))"
  "\<not> isLaunched l \<Longrightarrow>
   LaunchPipe_inline E l w =
     (fst (launch_inline E (l\<lparr>isLaunched := True\<rparr>) w),
      (fst (snd (launch_inline E (l\<lparr>isLaunched := True\<rparr>) w)))\<lparr>ctx_cancelled := True\<rparr>,
      snd (snd (launch_inline E (l\<lparr>isLaunched := True\<rparr>) w)))"
  by (simp_all add: LaunchPipe_def LaunchPipe_inline_def hasLaunched_def split: prod.splits)

lemma preparePipeConfig_isLaunched:
  "isLaunched (fst (snd (preparePipeConfig t l r wr w))) = isLaunched l"
  by (cases t)
     (auto simp: preparePipeConfig_def preparePipeConfig_unix_def preparePipeConfig_windows_def
        Let_def Set_def split: prod.splits option.splits)

lemma launch_isLaunched: "isLaunched (fst (snd (launch E l w))) = isLaunched l"
  using preparePipeConfig_isLaunched
  by (auto simp: launch_def Let_def setupUserPreferences_def
      split: sum.splits prod.splits; (metis fst_conv snd_conv)?)

lemma launch_inline_isLaunched: "isLaunched (fst (snd (launch_inline E l w))) = isLaunched l"
  by (auto simp: launch_inline_def Let_def setupUserPreferences_def
      split: sum.splits prod.splits)

lemma LaunchPipe_sets_launched:
  "isLaunched (fst (snd (LaunchPipe E l w)))" "isLaunched (fst (snd (LaunchPipe_inline E l w)))"
  by (cases "isLaunched l"; simp add: LaunchPipe_launched LaunchPipe_unlaunched
        launch_isLaunched launch_inline_isLaunched)+


text \<open>
  Claim C7. Whatever a call of \<^verbatim>\<open>LaunchPipe\<close> did and returned, the launcher it leaves is
  launched, and every later call on it, in any environment and world, returns
  \<^verbatim>\<open>ErrAlreadyLaunched\<close> and leaves launcher and world as they were: no pipe is created and no
  process started. The first call on an unlaunched launcher passes the test and returns
  what the launch body returns. This holds for both copies of \<^verbatim>\<open>LaunchPipe\<close>.
\<close>

theorem LaunchPipe_at_most_once:
  assumes "LaunchPipe E l w = (r, l1, w1) \<or> LaunchPipe_inline E l w = (r, l1, w1)"
  shows "isLaunched l1 \<and>
         LaunchPipe E' l1 w2 = (Inl ErrAlreadyLaunched, l1, w2) \<and>
         LaunchPipe_inline E' l1 w2 = (Inl ErrAlreadyLaunched, l1, w2) \<and>
         (isLaunched l \<longrightarrow> r = Inl ErrAlreadyLaunched \<and> l1 = l \<and> w1 = w) \<and>
         (\<not> isLaunched l \<longrightarrow>
            r = fst (launch E (l\<lparr>isLaunched := True\<rparr>) w) \<or>
            r = fst (launch_inline E (l\<lparr>isLaunched := True\<rparr>) w))"
proof -
  have l1: "isLaunched l1"
    using assms LaunchPipe_sets_launched[of E l w] by auto
  moreover have "isLaunched l \<longrightarrow> r = Inl ErrAlreadyLaunched \<and> l1 = l \<and> w1 = w"
    using assms by (auto simp: LaunchPipe_launched)
  moreover have "\<not> isLaunched l \<longrightarrow>
            r = fst (launch E (l\<lparr>isLaunched := True\<rparr>) w) \<or>
            r = fst (launch_inline E (l\<lparr>isLaunched := True\<rparr>) w)"
    using assms by (auto simp: LaunchPipe_unlaunched)
  ultimately show ?thesis by (simp add: LaunchPipe_launched)
qed

text \<open>Unfolding the launcher on concrete inputs.\<close>

lemmas launch_eval =
  LaunchPipe_def launch_def LaunchPipe_inline_def launch_inline_def hasLaunched_def
  NewPipeMode_def Set_def Delete_def setupUserPreferences_def setupCmd_def os_Pipe_def
  new_end_def close_file_def file_Close_def Command_def cmd_Start_def preparePipeConfig_def
  preparePipeConfig_unix_def preparePipeConfig_windows_def setHandleInheritable_def Fd_def
  NewPipeWebSocket_def NewReader_def Let_def

lemma ex_first_launch:
  "fst (LaunchPipe ex_unix (NewPipeMode ex_new) ex_world) = Inr (Client (NewPipeWebSocket 12 11))"
  "map fst (procs (snd (snd (LaunchPipe ex_unix (NewPipeMode ex_new) ex_world)))) = [100]"
  by (simp_all add: launch_eval ex_unix_def ex_new_def ex_world_def)

theorem LaunchPipe_at_most_once_witness:
  "fst (LaunchPipe ex_unix (NewPipeMode ex_new) ex_world) = Inr (Client (NewPipeWebSocket 12 11)) \<and>
   map fst (procs (snd (snd (LaunchPipe ex_unix (NewPipeMode ex_new) ex_world)))) = [100] \<and>
   LaunchPipe ex_unix (fst (snd (LaunchPipe ex_unix (NewPipeMode ex_new) ex_world)))
       (snd (snd (LaunchPipe ex_unix (NewPipeMode ex_new) ex_world))) =
     (Inl ErrAlreadyLaunched,
      fst (snd (LaunchPipe ex_unix (NewPipeMode ex_new) ex_world)),
      snd (snd (LaunchPipe ex_unix (NewPipeMode ex_new) ex_world)))"
proof -
  let ?X = "LaunchPipe ex_unix (NewPipeMode ex_new) ex_world"
  have eq: "?X = (fst ?X, fst (snd ?X), snd (snd ?X))" by simp
  from LaunchPipe_at_most_once[OF disjI1, OF eq, of ex_unix "snd (snd ?X)"] ex_first_launch
  show ?thesis by simp
qed

text \<open>
  Claim C6. When the first \<^verbatim>\<open>os.Pipe\<close> succeeds and the second fails with \<open>e\<close>, both copies of
  \<^verbatim>\<open>LaunchPipe\<close> return the error \<open>e\<close> wrapped as "failed to create read pipe", in a world
  where both ends of the first pipe are closed and no process was started.
\<close>

theorem LaunchPipe_second_pipe_fails:
  assumes "\<not> isLaunched l" "getBin E = Inr bin"
    "os_Pipe w = (w1, Inr (chromeReadPipe, ourWritePipe))" "os_Pipe w1 = (w2, Inl e)"
  shows "LaunchPipe E l w =
           (Inl (Wrapped ''failed to create read pipe'' e),
            l\<lparr>isLaunched := True, ctx_cancelled := True\<rparr>,
            close_file (close_file w2 chromeReadPipe) ourWritePipe) \<and>
         LaunchPipe_inline E l w =
           (Inl (Wrapped ''failed to create read pipe'' e),
            l\<lparr>isLaunched := True, ctx_cancelled := True\<rparr>,
            close_file (close_file w2 chromeReadPipe) ourWritePipe) \<and>
         closed (files (close_file (close_file w2 chromeReadPipe) ourWritePipe) chromeReadPipe) \<and>
         closed (files (close_file (close_file w2 chromeReadPipe) ourWritePipe) ourWritePipe) \<and>
         procs (close_file (close_file w2 chromeReadPipe) ourWritePipe) = procs w"
proof -
  have "launch E (l\<lparr>isLaunched := True\<rparr>) w =
          (Inl (Wrapped ''failed to create read pipe'' e), l\<lparr>isLaunched := True\<rparr>,
           close_file (close_file w2 chromeReadPipe) ourWritePipe)"
    using assms(2,3,4) by (simp add: launch_def setupUserPreferences_def Let_def)
  moreover have "launch_inline E (l\<lparr>isLaunched := True\<rparr>) w =
          (Inl (Wrapped ''failed to create read pipe'' e), l\<lparr>isLaunched := True\<rparr>,
           close_file (close_file w2 chromeReadPipe) ourWritePipe)"
    using assms(2,3,4) by (simp add: launch_inline_def setupUserPreferences_def Let_def)
  moreover have "procs w2 = procs w"
    using os_Pipe_fields(1)[of w] os_Pipe_fields(1)[of w1] assms(3,4) by simp
  ultimately show ?thesis
    using assms(1) by (simp add: LaunchPipe_unlaunched close_file_mono)
qed

theorem LaunchPipe_second_pipe_fails_witness:
  "os_Pipe (ex_world\<lparr>pipe_errs := [None, Some (Errno 24)]\<rparr>) =
     (fst (os_Pipe (ex_world\<lparr>pipe_errs := [None, Some (Errno 24)]\<rparr>)), Inr (10, 11)) \<and>
   fst (LaunchPipe ex_windows (NewPipeMode ex_new) (ex_world\<lparr>pipe_errs := [None, Some (Errno 24)]\<rparr>)) =
     Inl (Wrapped ''failed to create read pipe'' (Errno 24)) \<and>
   closed (files (snd (snd (LaunchPipe ex_windows (NewPipeMode ex_new)
              (ex_world\<lparr>pipe_errs := [None, Some (Errno 24)]\<rparr>)))) 10) \<and>
   closed (files (snd (snd (LaunchPipe ex_windows (NewPipeMode ex_new)
              (ex_world\<lparr>pipe_errs := [None, Some (Errno 24)]\<rparr>)))) 11)"
proof -
  let ?w = "ex_world\<lparr>pipe_errs := [None, Some (Errno 24)]\<rparr>"
  have p1: "os_Pipe ?w = (fst (os_Pipe ?w), Inr (10, 11))"
    by (simp add: os_Pipe_def ex_world_def Let_def)
  have p2: "os_Pipe (fst (os_Pipe ?w)) = (fst (os_Pipe (fst (os_Pipe ?w))), Inl (Errno 24))"
    by (simp add: os_Pipe_def ex_world_def Let_def)
  have u: "\<not> isLaunched (NewPipeMode ex_new)" "getBin ex_windows = Inr ''chrome''"
    by (simp_all add: NewPipeMode_def Set_def Delete_def ex_new_def ex_windows_def Let_def)
  from LaunchPipe_second_pipe_fails[OF u p1 p2] p1 show ?thesis by simp
qed

lemma setHandleInheritable_files [simp]: "files (fst (setHandleInheritable w h)) = files w"
  by (simp add: setHandleInheritable_def split: option.splits)

text \<open>
  Claim C8. \<^verbatim>\<open>preparePipeConfig\<close> of the Windows file, given two open files: when both
  \<^verbatim>\<open>SetHandleInformation\<close> calls succeed, both handles are marked inheritable, the flag
  \<^verbatim>\<open>remote-debugging-io-pipes\<close> is set to the one value "read,write" in decimal, and the
  returned closure lists both handles as inherited; when the call fails for the read or for
  the write handle, the result is that error, wrapped, and the launcher is unchanged. In
  every case the file table is as before: neither file has been closed.
\<close>

theorem preparePipeConfig_windows_marks_or_fails:
  assumes "\<not> closed (files w readPipe)" "\<not> closed (files w writePipe)"
  shows
    "(inherit_err w readPipe = None \<and> inherit_err w writePipe = None \<longrightarrow>
        (\<exists>configureCmd.
           preparePipeConfig_windows l readPipe writePipe w =
             (Inr configureCmd,
              l\<lparr>Flags := (Flags l)(RemoteDebuggingIoPipes \<mapsto>
                            [decimal readPipe @ '','' @ decimal writePipe])\<rparr>,
              w\<lparr>inheritable := insert writePipe (insert readPipe (inheritable w))\<rparr>) \<and>
           (\<forall>cmd. map_option AdditionalInheritedHandles (SysProcAttr (configureCmd cmd)) =
                    Some [readPipe, writePipe]))) \<and>
     (\<forall>e. inherit_err w readPipe = Some e \<longrightarrow>
        preparePipeConfig_windows l readPipe writePipe w =
          (Inl (Wrapped ''failed to make read handle inheritable'' e), l, w)) \<and>
     (\<forall>e. inherit_err w readPipe = None \<and> inherit_err w writePipe = Some e \<longrightarrow>
        preparePipeConfig_windows l readPipe writePipe w =
          (Inl (Wrapped ''failed to make write handle inheritable'' e), l,
           w\<lparr>inheritable := insert readPipe (inheritable w)\<rparr>)) \<and>
     files (snd (snd (preparePipeConfig_windows l readPipe writePipe w))) = files w \<and>
     \<not> closed (files (snd (snd (preparePipeConfig_windows l readPipe writePipe w))) readPipe) \<and>
     \<not> closed (files (snd (snd (preparePipeConfig_windows l readPipe writePipe w))) writePipe)"
  using assms
  by (auto simp: preparePipeConfig_windows_def setHandleInheritable_def Fd_def Set_def Let_def
           split: option.splits)


theorem preparePipeConfig_windows_marks_or_fails_witness:
  "\<not> closed (files ex_world 10) \<and> \<not> closed (files ex_world 13) \<and>
   Flags (fst (snd (preparePipeConfig_windows ex_new 10 13 ex_world))) RemoteDebuggingIoPipes =
     Some [''10,13''] \<and>
   inheritable (snd (snd (preparePipeConfig_windows ex_new 10 13 ex_world))) = {10, 13} \<and>
   preparePipeConfig_windows ex_new 10 13
       (ex_world\<lparr>inherit_err := (\<lambda>h. if h = 13 then Some (Errno 6) else None)\<rparr>) =
     (Inl (Wrapped ''failed to make write handle inheritable'' (Errno 6)), ex_new,
      ex_world\<lparr>inherit_err := (\<lambda>h. if h = 13 then Some (Errno 6) else None),
               inheritable := {10}\<rparr>) \<and>
   \<not> closed (files (snd (snd (preparePipeConfig_windows ex_new 10 13
       (ex_world\<lparr>inherit_err := (\<lambda>h. if h = 13 then Some (Errno 6) else None)\<rparr>)))) 10) \<and>
   \<not> closed (files (snd (snd (preparePipeConfig_windows ex_new 10 13
       (ex_world\<lparr>inherit_err := (\<lambda>h. if h = 13 then Some (Errno 6) else None)\<rparr>)))) 13)"
proof -
  let ?w = "ex_world\<lparr>inherit_err := (\<lambda>h. if h = 13 then Some (Errno 6) else None)\<rparr>"
  have o: "\<not> closed (files ex_world 10)" "\<not> closed (files ex_world 13)"
    "\<not> closed (files ?w 10)" "\<not> closed (files ?w 13)"
    by (simp_all add: ex_world_def)
  have d: "decimal 10 = ''10''" "decimal 13 = ''13''" by (simp_all add: decimal.simps)
  from preparePipeConfig_windows_marks_or_fails[OF o(1,2), of ex_new]
       preparePipeConfig_windows_marks_or_fails[OF o(3,4), of ex_new] o d
  show ?thesis by (auto simp: ex_world_def)
qed

lemma preparePipeConfig_Flags:
  assumes "preparePipeConfig t l r wr w = (cfg, l', w')"
  shows "Flags l' = Flags l \<or>
         (t = Windows \<and>
          (\<exists>h1 h2. Flags l' = (Flags l)(RemoteDebuggingIoPipes \<mapsto> [decimal h1 @ '','' @ decimal h2])))"
proof (cases t)
  case Unix
  with assms show ?thesis by (auto simp: preparePipeConfig_def preparePipeConfig_unix_def)
next
  case Windows
  have "Flags l' = Flags l \<or>
        Flags l' = (Flags l)(RemoteDebuggingIoPipes \<mapsto> [decimal (Fd w r) @ '','' @ decimal (Fd w wr)])"
    using assms Windows
    by (auto simp: preparePipeConfig_def preparePipeConfig_windows_def
        Let_def Set_def split: prod.splits option.splits)
  with Windows show ?thesis by blast
qed

lemma launch_Flags:
  "Flags (fst (snd (launch E l w))) = Flags l \<or>
   (target E = Windows \<and>
    (\<exists>r wr. Flags (fst (snd (launch E l w))) =
       (Flags l)(RemoteDebuggingIoPipes \<mapsto> [decimal r @ '','' @ decimal wr])))"
  by (auto simp: launch_def Let_def setupUserPreferences_def
           split: sum.splits prod.splits dest!: preparePipeConfig_Flags; blast)

lemma launch_inline_Flags: "Flags (fst (snd (launch_inline E l w))) = Flags l"
  by (auto simp: launch_inline_def Let_def setupUserPreferences_def split: sum.splits prod.splits)

lemma LaunchPipe_Flags:
  "Flags (fst (snd (LaunchPipe E l w))) = Flags l \<or>
   (target E = Windows \<and>
    (\<exists>r wr. Flags (fst (snd (LaunchPipe E l w))) =
       (Flags l)(RemoteDebuggingIoPipes \<mapsto> [decimal r @ '','' @ decimal wr])))"
proof (cases "isLaunched l")
  case True
  then show ?thesis by (simp add: LaunchPipe_launched)
next
  case False
  from launch_Flags[of E "l\<lparr>isLaunched := True\<rparr>" w] False
  show ?thesis by (simp add: LaunchPipe_unlaunched)
qed

lemma LaunchPipe_inline_Flags: "Flags (fst (snd (LaunchPipe_inline E l w))) = Flags l"
  by (cases "isLaunched l") (simp_all add: LaunchPipe_launched LaunchPipe_unlaunched launch_inline_Flags)

text \<open>
  Claim C9. \<^verbatim>\<open>NewPipeMode\<close> removes the flags \<^verbatim>\<open>remote-debugging-port\<close> and \<^verbatim>\<open>leakless\<close>, sets
  \<^verbatim>\<open>remote-debugging-pipe\<close> (with no value) and leaves every other flag of \<^verbatim>\<open>New()\<close> as it
  was. \<^verbatim>\<open>LaunchPipe\<close> leaves the flags as they were, or, on Windows only, sets
  \<^verbatim>\<open>remote-debugging-io-pipes\<close> to one value of two decimal numbers joined by a comma; the
  copy of \<^verbatim>\<open>LaunchPipe\<close> in \<^verbatim>\<open>launcher_pipe.go\<close> never changes a flag.
\<close>

theorem pipe_core_touches_four_flags:
  "Flags (NewPipeMode new) =
     (Flags new)(RemoteDebuggingPort := None, Leakless := None, RemoteDebuggingPipe \<mapsto> []) \<and>
   Flags (NewPipeMode new) RemoteDebuggingPort = None \<and>
   Flags (NewPipeMode new) Leakless = None \<and>
   Flags (NewPipeMode new) RemoteDebuggingPipe = Some [] \<and>
   (Flags (fst (snd (LaunchPipe E l w))) = Flags l \<or>
    (target E = Windows \<and>
     (\<exists>r wr. Flags (fst (snd (LaunchPipe E l w))) =
        (Flags l)(RemoteDebuggingIoPipes \<mapsto> [decimal r @ '','' @ decimal wr])))) \<and>
   Flags (fst (snd (LaunchPipe_inline E l w))) = Flags l"
  using LaunchPipe_Flags[of E l w] LaunchPipe_inline_Flags[of E l w]
  by (simp add: NewPipeMode_def Set_def Delete_def Let_def
       RemoteDebuggingPort_def Leakless_def RemoteDebuggingPipe_def)

text \<open>
  What a started process was started from, in either copy of \<^verbatim>\<open>LaunchPipe\<close>.
\<close>

lemma preparePipeConfig_result:
  assumes "preparePipeConfig t l r wr w = (Inr configureCmd, l', w')"
  shows "Args (configureCmd cmd) = Args cmd \<and> files w' = files w \<and> procs w' = procs w \<and>
         next_pid w' = next_pid w \<and> start_err w' = start_err w \<and>
         (t = Unix \<longrightarrow> ExtraFiles (configureCmd cmd) = [r, wr] \<and> Flags l' = Flags l) \<and>
         (t = Windows \<longrightarrow>
            ExtraFiles (configureCmd cmd) = ExtraFiles cmd \<and>
            Flags l' = (Flags l)(RemoteDebuggingIoPipes \<mapsto>
                          [decimal (Fd w r) @ '','' @ decimal (Fd w wr)]) \<and>
            map_option AdditionalInheritedHandles (SysProcAttr (configureCmd cmd)) =
              Some [Fd w r, Fd w wr] \<and>
            Fd w r \<in> inheritable w' \<and> Fd w wr \<in> inheritable w')"
  using assms
  by (cases t)
     (auto simp: preparePipeConfig_def preparePipeConfig_unix_def preparePipeConfig_windows_def
        setHandleInheritable_def Let_def Set_def split: prod.splits option.splits)

lemma cmd_Start_started:
  assumes "cmd_Start t w cmd = (w', Inr child)"
  shows "procs w' = procs w @ [(child, cmd)] \<and> inheritable w' = inheritable w"
  using assms by (auto simp: cmd_Start_def split: if_splits option.splits)

lemma launch_started:
  assumes "launch E l w = (Inr c, l', w')"
  shows "\<exists>bin cmd.
           getBin E = Inr bin \<and> procs w' = procs w @ [(pid l', cmd)] \<and>
           Args cmd = bin # FormatArgs E (Flags l') \<and>
           (target E = Unix \<longrightarrow> Flags l' = Flags l) \<and>
           (target E = Windows \<longrightarrow>
              (\<exists>r wr. Flags l' = (Flags l)(RemoteDebuggingIoPipes \<mapsto>
                                     [decimal r @ '','' @ decimal wr]) \<and>
                      map_option AdditionalInheritedHandles (SysProcAttr cmd) = Some [r, wr] \<and>
                      r \<in> inheritable w' \<and> wr \<in> inheritable w'))"
proof -
  from assms obtain bin where bin: "getBin E = Inr bin"
    by (cases "getBin E") (auto simp: launch_def)
  obtain w1 p1 where p1: "os_Pipe w = (w1, p1)" by (cases "os_Pipe w") auto
  from assms bin p1 obtain a b where ab: "p1 = Inr (a, b)"
    by (cases p1) (auto simp: launch_def setupUserPreferences_def Let_def)
  obtain w2 p2 where p2: "os_Pipe w1 = (w2, p2)" by (cases "os_Pipe w1") auto
  from assms bin p1 ab p2 obtain c' d where cd: "p2 = Inr (c', d)"
    by (cases p2) (auto simp: launch_def setupUserPreferences_def Let_def)
  obtain cfg l3 w3 where pc: "preparePipeConfig (target E) l a d w2 = (cfg, l3, w3)"
    by (cases "preparePipeConfig (target E) l a d w2") auto
  from assms bin p1 ab p2 cd pc obtain f where f: "cfg = Inr f"
    by (cases cfg) (auto simp: launch_def setupUserPreferences_def Let_def)
  let ?cmd = "f (setupCmd l3 (Command bin (FormatArgs E (Flags l3))))"
  obtain w4 st where st: "cmd_Start (target E) w3 ?cmd = (w4, st)"
    by (cases "cmd_Start (target E) w3 ?cmd") auto
  from assms bin p1 ab p2 cd pc f st obtain child where ch: "st = Inr child"
    by (cases st) (auto simp: launch_def setupUserPreferences_def Let_def)
  from assms bin p1 ab p2 cd pc f st ch
  have res: "l' = l3\<lparr>pid := child\<rparr>" "w' = close_file (close_file w4 a) d"
    by (auto simp: launch_def setupUserPreferences_def Let_def)
  note R = preparePipeConfig_result[OF pc[unfolded f], of "setupCmd l3 (Command bin (FormatArgs E (Flags l3)))"]
  note S = cmd_Start_started[OF st[unfolded ch]]
  have pr: "procs w2 = procs w"
    using os_Pipe_fields(1)[of w] os_Pipe_fields(1)[of w1] p1 p2 by simp
  have "procs w' = procs w @ [(pid l', ?cmd)]" using res R S pr by simp
  moreover have "Args ?cmd = bin # FormatArgs E (Flags l')"
    using res R by (simp add: setupCmd_def Command_def)
  moreover have "target E = Unix \<longrightarrow> Flags l' = Flags l" using res R by simp
  moreover have "target E = Windows \<longrightarrow>
              (\<exists>r wr. Flags l' = (Flags l)(RemoteDebuggingIoPipes \<mapsto>
                                     [decimal r @ '','' @ decimal wr]) \<and>
                      map_option AdditionalInheritedHandles (SysProcAttr ?cmd) = Some [r, wr] \<and>
                      r \<in> inheritable w' \<and> wr \<in> inheritable w')"
    using res R S by auto
  ultimately show ?thesis using bin by blast
qed

lemma launch_inline_started:
  assumes "launch_inline E l w = (Inr c, l', w')"
  shows "\<exists>bin cmd.
           getBin E = Inr bin \<and> procs w' = procs w @ [(pid l', cmd)] \<and>
           Args cmd = bin # FormatArgs E (Flags l') \<and>
           target E = Unix \<and> Flags l' = Flags l"
proof -
  from assms obtain bin where bin: "getBin E = Inr bin"
    by (cases "getBin E") (auto simp: launch_inline_def)
  obtain w1 p1 where p1: "os_Pipe w = (w1, p1)" by (cases "os_Pipe w") auto
  from assms bin p1 obtain a b where ab: "p1 = Inr (a, b)"
    by (cases p1) (auto simp: launch_inline_def setupUserPreferences_def Let_def)
  obtain w2 p2 where p2: "os_Pipe w1 = (w2, p2)" by (cases "os_Pipe w1") auto
  from assms bin p1 ab p2 obtain c' d where cd: "p2 = Inr (c', d)"
    by (cases p2) (auto simp: launch_inline_def setupUserPreferences_def Let_def)
  let ?cmd = "setupCmd l ((Command bin (FormatArgs E (Flags l)))\<lparr>ExtraFiles := [a, d]\<rparr>)"
  obtain w4 st where st: "cmd_Start (target E) w2 ?cmd = (w4, st)"
    by (cases "cmd_Start (target E) w2 ?cmd") auto
  from assms bin p1 ab p2 cd st obtain child where ch: "st = Inr child"
    by (cases st) (auto simp: launch_inline_def setupUserPreferences_def Let_def)
  from assms bin p1 ab p2 cd st ch
  have res: "l' = l\<lparr>pid := child\<rparr>" "w' = close_file (close_file w4 a) d"
    by (auto simp: launch_inline_def setupUserPreferences_def Let_def)
  note S = cmd_Start_started[OF st[unfolded ch]]
  have u: "target E = Unix"
    using st ch by (cases "target E") (auto simp: cmd_Start_def setupCmd_def Command_def)
  have pr: "procs w2 = procs w"
    using os_Pipe_fields(1)[of w] os_Pipe_fields(1)[of w1] p1 p2 by simp
  have "procs w' = procs w @ [(pid l', ?cmd)]" using res S pr by simp
  moreover have "Args ?cmd = bin # FormatArgs E (Flags l')"
    using res by (simp add: setupCmd_def Command_def)
  moreover have "Flags l' = Flags l" using res by simp
  ultimately show ?thesis using bin u by blast
qed

lemma LaunchPipe_inline_never_binds:
  "inheritable (snd (snd (LaunchPipe_inline E l w))) = inheritable w \<and>
   Flags (fst (snd (LaunchPipe_inline E l w))) = Flags l"
proof -
  have "inheritable (snd (snd (launch_inline E l0 w))) = inheritable w" for l0
    by (auto simp: launch_inline_def Let_def setupUserPreferences_def cmd_Start_def
             split: sum.splits prod.splits if_splits option.splits
             dest!: arg_cong[where f = "\<lambda>r. inheritable (fst r)"])
  then show ?thesis
    by (cases "isLaunched l")
       (simp_all add: LaunchPipe_launched LaunchPipe_unlaunched LaunchPipe_inline_Flags launch_inline_Flags)
qed

text \<open>
  Claim C5. Whenever a copy of \<^verbatim>\<open>LaunchPipe\<close> starts a process, the argument list of that
  process is the binary followed by the formatting of the flags as the launcher holds them
  on return, that is, after the platform step. On Unix these are the flags the launcher
  came with. On Windows they are those flags with \<^verbatim>\<open>remote-debugging-io-pipes\<close> set to two
  handles in decimal, joined by a comma; the same two handles are marked inheritable and
  are the ones the command inherits. The copy in \<^verbatim>\<open>launcher_pipe.go\<close> formats first, but it
  has no platform step and changes no flag between formatting and start, and on Windows it
  starts no process.
\<close>

theorem LaunchPipe_formats_after_binding:
  assumes "LaunchPipe E l w = (Inr c, l', w') \<or> LaunchPipe_inline E l w = (Inr c, l', w')"
  shows "\<exists>bin cmd.
           getBin E = Inr bin \<and> procs w' = procs w @ [(pid l', cmd)] \<and>
           Args cmd = bin # FormatArgs E (Flags l') \<and>
           (target E = Unix \<longrightarrow> Flags l' = Flags l) \<and>
           (target E = Windows \<longrightarrow>
              (\<exists>r wr. Flags l' = (Flags l)(RemoteDebuggingIoPipes \<mapsto>
                                     [decimal r @ '','' @ decimal wr]) \<and>
                      map_option AdditionalInheritedHandles (SysProcAttr cmd) = Some [r, wr] \<and>
                      r \<in> inheritable w' \<and> wr \<in> inheritable w'))"
  using assms
proof
  assume a: "LaunchPipe E l w = (Inr c, l', w')"
  then have nl: "\<not> isLaunched l" by (auto simp: LaunchPipe_launched)
  let ?X = "launch E (l\<lparr>isLaunched := True\<rparr>) w"
  from a nl have r: "fst ?X = Inr c" "l' = (fst (snd ?X))\<lparr>ctx_cancelled := True\<rparr>"
      "w' = snd (snd ?X)"
    by (simp_all add: LaunchPipe_unlaunched)
  then have "?X = (Inr c, fst (snd ?X), w')" by (simp add: prod_eq_iff)
  from launch_started[OF this] r(2) show ?thesis by simp
next
  assume a: "LaunchPipe_inline E l w = (Inr c, l', w')"
  then have nl: "\<not> isLaunched l" by (auto simp: LaunchPipe_launched)
  let ?X = "launch_inline E (l\<lparr>isLaunched := True\<rparr>) w"
  from a nl have r: "fst ?X = Inr c" "l' = (fst (snd ?X))\<lparr>ctx_cancelled := True\<rparr>"
      "w' = snd (snd ?X)"
    by (simp_all add: LaunchPipe_unlaunched)
  then have "?X = (Inr c, fst (snd ?X), w')" by (simp add: prod_eq_iff)
  from launch_inline_started[OF this] r(2) show ?thesis by auto
qed

lemma ex_windows_launch:
  "fst (LaunchPipe ex_windows (NewPipeMode ex_new) ex_world) = Inr (Client (NewPipeWebSocket 12 11))"
  "map (Args \<circ> snd) (procs (snd (snd (LaunchPipe ex_windows (NewPipeMode ex_new) ex_world)))) =
     [[''chrome'', ''--remote-debugging-io-pipes=10,13'', ''--remote-debugging-pipe'']]"
  "Flags (fst (snd (LaunchPipe ex_windows (NewPipeMode ex_new) ex_world))) RemoteDebuggingIoPipes =
     Some [''10,13'']"
  "inheritable (snd (snd (LaunchPipe ex_windows (NewPipeMode ex_new) ex_world))) = {10, 13}"
  by (simp_all add: launch_eval ex_windows_def ex_new_def ex_world_def ex_format_def
        RemoteDebuggingPort_def Leakless_def RemoteDebuggingPipe_def RemoteDebuggingIoPipes_def
        decimal.simps insert_commute)

lemma ex_unix_inline_launch:
  "fst (LaunchPipe_inline ex_unix (NewPipeMode ex_new) ex_world) = Inr (Client (NewPipeWebSocket 12 11))"
  "map (Args \<circ> snd) (procs (snd (snd (LaunchPipe_inline ex_unix (NewPipeMode ex_new) ex_world)))) =
     [[''chrome'', ''--remote-debugging-pipe'']]"
  by (simp_all add: launch_eval ex_unix_def ex_new_def ex_world_def ex_format_def
        RemoteDebuggingPort_def Leakless_def RemoteDebuggingPipe_def RemoteDebuggingIoPipes_def)

theorem LaunchPipe_formats_after_binding_witness:
  "fst (LaunchPipe ex_windows (NewPipeMode ex_new) ex_world) = Inr (Client (NewPipeWebSocket 12 11)) \<and>
   map (Args \<circ> snd) (procs (snd (snd (LaunchPipe ex_windows (NewPipeMode ex_new) ex_world)))) =
     [[''chrome'', ''--remote-debugging-io-pipes=10,13'', ''--remote-debugging-pipe'']] \<and>
   Flags (fst (snd (LaunchPipe ex_windows (NewPipeMode ex_new) ex_world))) RemoteDebuggingIoPipes =
     Some [''10,13''] \<and>
   inheritable (snd (snd (LaunchPipe ex_windows (NewPipeMode ex_new) ex_world))) = {10, 13} \<and>
   (\<exists>cmd. procs (snd (snd (LaunchPipe ex_windows (NewPipeMode ex_new) ex_world))) =
            [(pid (fst (snd (LaunchPipe ex_windows (NewPipeMode ex_new) ex_world))), cmd)] \<and>
          Args cmd = ''chrome'' #
            ex_format (Flags (fst (snd (LaunchPipe ex_windows (NewPipeMode ex_new) ex_world)))) \<and>
          (\<exists>r wr. map_option AdditionalInheritedHandles (SysProcAttr cmd) = Some [r, wr] \<and>
                  r \<in> inheritable (snd (snd (LaunchPipe ex_windows (NewPipeMode ex_new) ex_world))) \<and>
                  wr \<in> inheritable (snd (snd (LaunchPipe ex_windows (NewPipeMode ex_new) ex_world))))) \<and>
   fst (LaunchPipe_inline ex_unix (NewPipeMode ex_new) ex_world) = Inr (Client (NewPipeWebSocket 12 11)) \<and>
   map (Args \<circ> snd) (procs (snd (snd (LaunchPipe_inline ex_unix (NewPipeMode ex_new) ex_world)))) =
     [[''chrome'', ''--remote-debugging-pipe'']]"
proof -
  let ?X = "LaunchPipe ex_windows (NewPipeMode ex_new) ex_world"
  have eq: "?X = (Inr (Client (NewPipeWebSocket 12 11)), fst (snd ?X), snd (snd ?X))"
    using ex_windows_launch(1) by (simp add: prod_eq_iff)
  have e: "getBin ex_windows = Inr ''chrome''" "target ex_windows = Windows"
    "FormatArgs ex_windows = ex_format" "procs ex_world = []"
    by (simp_all add: ex_windows_def ex_world_def)
  from LaunchPipe_formats_after_binding[OF disjI1, OF eq] e
  have "\<exists>cmd. procs (snd (snd ?X)) = [(pid (fst (snd ?X)), cmd)] \<and>
          Args cmd = ''chrome'' # ex_format (Flags (fst (snd ?X))) \<and>
          (\<exists>r wr. map_option AdditionalInheritedHandles (SysProcAttr cmd) = Some [r, wr] \<and>
                  r \<in> inheritable (snd (snd ?X)) \<and> wr \<in> inheritable (snd (snd ?X)))"
    by auto
  with ex_windows_launch ex_unix_inline_launch show ?thesis by blast
qed

end
